theory Spec2Isabelle
  imports Main "HOL-Library.Sublist" "HOL-Library.AList" "HOL-Library.Char_ord"
    "HOL-Library.List_Lexorder"
begin

section \<open>Customers\<close>

text \<open>
  The Customer model (Mongoose schema). Only the stored paths that the campaign pipeline
  reads are kept: \<open>_id\<close> (here \<open>cust_id\<close>), \<open>name\<close>, \<open>totalSpent\<close>, \<open>visitCount\<close>,
  \<open>status\<close> (here \<open>custStatus\<close>) and the optional \<open>city\<close>. The schema gives
  \<open>totalSpent\<close> and \<open>visitCount\<close> the default 0 and makes \<open>name\<close> required, so none
  of them is absent on a stored document. Amounts are integers here; fractional amounts
  are outside the model.
\<close>

record customer =
  cust_id :: string
  name :: string
  totalSpent :: int
  visitCount :: int
  custStatus :: string
  city :: "string option"

text \<open>
  The virtual \<open>valueCategory\<close>: the first threshold reached from the top decides.
\<close>

definition valueCategory :: "customer \<Rightarrow> string" where
  "valueCategory c =
     (if totalSpent c \<ge> 50000 then ''premium''
      else if totalSpent c \<ge> 10000 then ''high-value''
      else if totalSpent c \<ge> 1000 then ''regular''
      else ''new'')"

section \<open>Audience rules\<close>

text \<open>
  A condition's \<open>value\<close> is a Mixed path: a number, a string, a boolean, null or an
  array. \<open>field\<close> and \<open>operator\<close> are strings, as in the schema.
\<close>

datatype jsval = VNum int | VStr string | VBool bool | VNull | VArr "jsval list"

record condition =
  field :: string
  operator :: string
  cond_value :: jsval

record rules =
  conditions :: "condition list"
  logic :: string

text \<open>
  What \<open>buildConditionQuery\<close> stores under \<open>query[field]\<close>: an operator document, or
  the bare value for \<open>eq\<close> and for the \<open>default\<close> branch of the switch.
\<close>

datatype constraint =
    Gt jsval | Gte jsval | Lt jsval | Lte jsval
  | Eq jsval | Ne jsval
  | In "jsval list" | Nin "jsval list"
  | Exists bool

text \<open>\<open>Array.isArray(value) ? value : [value]\<close>.\<close>

fun asArray :: "jsval \<Rightarrow> jsval list" where
  "asArray (VArr vs) = vs"
| "asArray v = [v]"

text \<open>JavaScript's \<open>Boolean(value)\<close>.\<close>

fun toBoolean :: "jsval \<Rightarrow> bool" where
  "toBoolean (VNum n) = (n \<noteq> 0)"
| "toBoolean (VStr s) = (s \<noteq> [])"
| "toBoolean (VBool b) = b"
| "toBoolean VNull = False"
| "toBoolean (VArr _) = True"

definition buildConditionQuery :: "condition \<Rightarrow> string \<times> constraint" where
  "buildConditionQuery cond =
     (let f = field cond; op = operator cond; v = cond_value cond in
      if op = ''gt'' then (f, Gt v)
      else if op = ''gte'' then (f, Gte v)
      else if op = ''lt'' then (f, Lt v)
      else if op = ''lte'' then (f, Lte v)
      else if op = ''eq'' then (f, Eq v)
      else if op = ''ne'' then (f, Ne v)
      else if op = ''in'' then (f, In (asArray v))
      else if op = ''nin'' then (f, Nin (asArray v))
      else if op = ''exists'' then (f, Exists (toBoolean v))
      else (f, Eq v))"

subsection \<open>The query matcher behind \<open>Customer.find\<close>\<close>

text \<open>
  \<open>Customer.find(query)\<close> is answered by the database. A filter document is a list of
  (path, constraint) pairs, all of which must hold. The stored paths are those of the
  record; \<open>daysSinceLastOrder\<close> and \<open>valueCategory\<close> are virtuals, computed on a loaded
  document and never stored, so the database sees them as missing. Ordering operators
  compare values of the same type only (numbers, strings by their code units, false
  before true); a missing path satisfies \<open>$ne\<close>, \<open>$nin\<close>, \<open>$exists: false\<close> and
  equality with null. Condition values are taken as they are: a value of another type
  than the path matches nothing under the ordering and equality operators. Mongoose's
  casting of a filter value to the type of its path (with the cast error it raises for a
  value it cannot cast, the trimming of strings, and an array under equality read as
  \<open>$in\<close>) is not part of this matcher; it is exact for values that already have the
  type of the path, numbers compared with numeric paths in particular.
\<close>

definition fieldValue :: "customer \<Rightarrow> string \<Rightarrow> jsval option" where
  "fieldValue c f =
     (if f = ''name'' then Some (VStr (name c))
      else if f = ''totalSpent'' then Some (VNum (totalSpent c))
      else if f = ''visitCount'' then Some (VNum (visitCount c))
      else if f = ''status'' then Some (VStr (custStatus c))
      else if f = ''city'' then map_option VStr (city c)
      else None)"

fun lessVal :: "jsval \<Rightarrow> jsval \<Rightarrow> bool" where
  "lessVal (VNum a) (VNum b) = (a < b)"
| "lessVal (VStr a) (VStr b) = (a < b)"
| "lessVal (VBool a) (VBool b) = (\<not> a \<and> b)"
| "lessVal _ _ = False"

definition eqMatch :: "jsval option \<Rightarrow> jsval \<Rightarrow> bool" where
  "eqMatch fv v = (case fv of None \<Rightarrow> v = VNull | Some x \<Rightarrow> x = v)"

fun matchesConstraint :: "jsval option \<Rightarrow> constraint \<Rightarrow> bool" where
  "matchesConstraint fv (Gt v) = (case fv of None \<Rightarrow> False | Some x \<Rightarrow> lessVal v x)"
| "matchesConstraint fv (Gte v) =
     (eqMatch fv v \<or> (case fv of None \<Rightarrow> False | Some x \<Rightarrow> lessVal v x))"
| "matchesConstraint fv (Lt v) = (case fv of None \<Rightarrow> False | Some x \<Rightarrow> lessVal x v)"
| "matchesConstraint fv (Lte v) =
     (eqMatch fv v \<or> (case fv of None \<Rightarrow> False | Some x \<Rightarrow> lessVal x v))"
| "matchesConstraint fv (Eq v) = eqMatch fv v"
| "matchesConstraint fv (Ne v) = (\<not> eqMatch fv v)"
| "matchesConstraint fv (In vs) = list_ex (eqMatch fv) vs"
| "matchesConstraint fv (Nin vs) = (\<not> list_ex (eqMatch fv) vs)"
| "matchesConstraint fv (Exists b) = ((fv \<noteq> None) = b)"

definition matchesQuery :: "customer \<Rightarrow> (string \<times> constraint) list \<Rightarrow> bool" where
  "matchesQuery c q = list_all (\<lambda>(f, k). matchesConstraint (fieldValue c f) k) q"

subsection \<open>evaluateAudience\<close>

text \<open>
  The AND branch merges every condition's query into one object with \<open>Object.assign\<close>:
  a key that is already present keeps its place and takes the new value, which is what
  \<open>AList.update\<close> does. The OR branch keeps the list of queries under \<open>$or\<close>.
\<close>

definition assignAll :: "condition list \<Rightarrow> (string \<times> constraint) list" where
  "assignAll conds =
     foldl (\<lambda>query cond. case buildConditionQuery cond of (f, k) \<Rightarrow> AList.update f k query)
       [] conds"

definition evaluateAudience :: "rules \<Rightarrow> customer list \<Rightarrow> customer list" where
  "evaluateAudience rs cs =
     (if conditions rs = [] then []
      else if logic rs = ''OR''
      then filter (\<lambda>c. list_ex (\<lambda>cond. matchesQuery c [buildConditionQuery cond])
                     (conditions rs)) cs
      else filter (\<lambda>c. matchesQuery c (assignAll (conditions rs))) cs)"

section \<open>Campaigns and delivery logs\<close>

text \<open>
  The stats block of a campaign and the campaign document. Paths the dispatch pipeline
  never reads (name, description, type, createdBy, aiInsights) are left out; \<open>_id\<close> is
  \<open>camp_id\<close>. Dates are milliseconds since the epoch. Status values are the strings of
  the schema's enum.
\<close>

record campaign_stats =
  sent :: nat
  delivered :: nat
  failed :: nat
  pending :: nat

record campaign =
  camp_id :: string
  messageTemplate :: string
  audienceRules :: rules
  channel :: string
  audienceSize :: nat
  status :: string
  startedAt :: "nat option"
  completedAt :: "nat option"
  stats :: campaign_stats

datatype error =
    ValidationError string
  | DuplicateKeyError string

text \<open>
  A delivery receipt as the vendor reports it, and the CommunicationLog document. The
  log's \<open>status\<close> and \<open>channel\<close> paths are \<open>logStatus\<close> and \<open>logChannel\<close>, the
  personalization snapshot keeps the customer's name, totalSpent and visitCount.
\<close>

record receipt =
  r_messageId :: string
  r_status :: string
  r_timestamp :: nat
  r_errorCode :: "string option"
  r_errorMessage :: "string option"
  r_vendorMessageId :: "string option"

record communicationLog =
  campaignId :: string
  customerId :: string
  messageId :: string
  message :: string
  logChannel :: string
  logStatus :: string
  sentAt :: "nat option"
  deliveredAt :: "nat option"
  failedAt :: "nat option"
  errorCode :: "string option"
  errorMessage :: "string option"
  vendorId :: "string option"
  vendorResponse :: "receipt option"
  openedAt :: "nat option"
  clickedAt :: "nat option"
  retryCount :: nat
  nextRetryAt :: "nat option"
  personalizedData :: "string \<times> int \<times> int"

subsection \<open>CommunicationLog: lookup, save and the mark methods\<close>

text \<open>
  \<open>CommunicationLog.findOne({ messageId })\<close>: \<open>messageId\<close> carries a unique index and
  no method changes it, so it identifies the stored document, and \<open>save()\<close> replaces the
  stored document of that \<open>messageId\<close>. Every method below runs on a document loaded
  in the same step, so replacing the stored document and writing its modified paths are
  the same.
\<close>

definition findOne :: "string \<Rightarrow> communicationLog list \<Rightarrow> communicationLog option" where
  "findOne mid ls = find (\<lambda>l. messageId l = mid) ls"

definition saveLog :: "communicationLog \<Rightarrow> communicationLog list \<Rightarrow> communicationLog list" where
  "saveLog l ls = map (\<lambda>x. if messageId x = messageId l then l else x) ls"

definition markAsSent ::
  "communicationLog \<Rightarrow> nat \<Rightarrow> communicationLog list \<Rightarrow> error + communicationLog list" where
  "markAsSent l now ls = Inr (saveLog (l\<lparr>logStatus := ''sent'', sentAt := Some now\<rparr>) ls)"

definition markAsDelivered ::
  "communicationLog \<Rightarrow> nat \<Rightarrow> communicationLog list \<Rightarrow> error + communicationLog list" where
  "markAsDelivered l now ls =
     Inr (saveLog (l\<lparr>logStatus := ''delivered'', deliveredAt := Some now\<rparr>) ls)"

text \<open>
  \<open>markAsFailed\<close> increments \<open>retryCount\<close> and then computes the delay from the
  incremented count: \<open>Math.pow(2, retryCount) * 5\<close> minutes. Its \<open>save()\<close> validates the
  modified paths first; \<open>retryCount\<close> is declared with \<open>max: 3\<close>, so a count above 3 is
  rejected with a validation error and nothing is written.
\<close>

definition retryDelayMinutes :: "nat \<Rightarrow> nat" where
  "retryDelayMinutes rc = 2 ^ rc * 5"

definition markAsFailed ::
  "communicationLog \<Rightarrow> string option \<Rightarrow> string option \<Rightarrow> nat \<Rightarrow> communicationLog list
     \<Rightarrow> error + communicationLog list" where
  "markAsFailed l code msg now ls =
     (let l1 = l\<lparr>logStatus := ''failed'', failedAt := Some now, errorCode := code,
                  errorMessage := msg, retryCount := retryCount l + 1\<rparr>;
          l2 = l1\<lparr>nextRetryAt := Some (now + retryDelayMinutes (retryCount l1) * 60 * 1000)\<rparr>
      in if retryCount l2 > 3 then Inl (ValidationError ''retryCount'')
         else Inr (saveLog l2 ls))"

text \<open>
  \<open>markAsOpened\<close> and \<open>markAsClicked\<close> save only inside their guard; outside it they
  resolve with the document as it is and write nothing.
\<close>

definition markAsOpened ::
  "communicationLog \<Rightarrow> nat \<Rightarrow> communicationLog list \<Rightarrow> error + communicationLog list" where
  "markAsOpened l now ls =
     (if logStatus l = ''delivered''
      then Inr (saveLog (l\<lparr>logStatus := ''opened'', openedAt := Some now\<rparr>) ls)
      else Inr ls)"

definition markAsClicked ::
  "communicationLog \<Rightarrow> nat \<Rightarrow> communicationLog list \<Rightarrow> error + communicationLog list" where
  "markAsClicked l now ls =
     (if logStatus l \<in> set [''delivered'', ''opened'']
      then Inr (saveLog (l\<lparr>logStatus := ''clicked'', clickedAt := Some now\<rparr>) ls)
      else Inr ls)"

subsection \<open>Campaign: lookup, save and the instance methods\<close>

text \<open>
  \<open>save()\<close> on a loaded document writes the paths that were modified on it and leaves
  the other stored paths alone: \<open>updateStats\<close> writes the one counter it incremented,
  \<open>start\<close> writes \<open>status\<close> and \<open>startedAt\<close>, \<open>complete\<close> writes \<open>status\<close> and
  \<open>completedAt\<close>. Each method returns the in-memory document together with the
  collection. \<open>this.stats[status] !== undefined\<close> holds for the four counters, which the
  schema defaults to 0, and for no other key.
\<close>

definition findById :: "string \<Rightarrow> campaign list \<Rightarrow> campaign option" where
  "findById cid cs = find (\<lambda>c. camp_id c = cid) cs"

definition incStat :: "string \<Rightarrow> campaign_stats \<Rightarrow> campaign_stats" where
  "incStat key st =
     (if key = ''sent'' then st\<lparr>sent := sent st + 1\<rparr>
      else if key = ''delivered'' then st\<lparr>delivered := delivered st + 1\<rparr>
      else if key = ''failed'' then st\<lparr>failed := failed st + 1\<rparr>
      else if key = ''pending'' then st\<lparr>pending := pending st + 1\<rparr>
      else st)"

definition writeStat :: "string \<Rightarrow> campaign_stats \<Rightarrow> campaign_stats \<Rightarrow> campaign_stats" where
  "writeStat key src dst =
     (if key = ''sent'' then dst\<lparr>sent := sent src\<rparr>
      else if key = ''delivered'' then dst\<lparr>delivered := delivered src\<rparr>
      else if key = ''failed'' then dst\<lparr>failed := failed src\<rparr>
      else if key = ''pending'' then dst\<lparr>pending := pending src\<rparr>
      else dst)"

definition updateStats :: "campaign \<Rightarrow> string \<Rightarrow> campaign list \<Rightarrow> campaign \<times> campaign list" where
  "updateStats c key cs =
     (let c' = c\<lparr>stats := incStat key (stats c)\<rparr>
      in (c', map (\<lambda>x. if camp_id x = camp_id c
                         then x\<lparr>stats := writeStat key (stats c') (stats x)\<rparr> else x) cs))"

definition start :: "campaign \<Rightarrow> nat \<Rightarrow> campaign list \<Rightarrow> campaign \<times> campaign list" where
  "start c now cs =
     (let c' = c\<lparr>status := ''running'', startedAt := Some now\<rparr>
      in (c', map (\<lambda>x. if camp_id x = camp_id c
                         then x\<lparr>status := ''running'', startedAt := Some now\<rparr> else x) cs))"

definition complete :: "campaign \<Rightarrow> nat \<Rightarrow> campaign list \<Rightarrow> campaign \<times> campaign list" where
  "complete c now cs =
     (let c' = c\<lparr>status := ''completed'', completedAt := Some now\<rparr>
      in (c', map (\<lambda>x. if camp_id x = camp_id c
                         then x\<lparr>status := ''completed'', completedAt := Some now\<rparr> else x) cs))"

section \<open>The store\<close>

record db =
  customers :: "customer list"
  campaigns :: "campaign list"
  logs :: "communicationLog list"

section \<open>Receipt processing\<close>

text \<open>
  \<open>processDeliveryReceipt\<close>, with the processing time as a parameter. The result is the
  error thrown (if any) and the store afterwards. The receipt's status is the string the
  caller passes; the three callers (the send simulation, the webhook and the batch
  endpoint) only pass sent, delivered, failed or bounced. When no case of the switch
  matches, no method runs and the log is not saved. The open and click events that the
  delivered branch schedules on timers run later, outside this call. The function's two
  blocks are given separately: \<open>applyReceiptToLog\<close> is the switch that updates the
  communication log, \<open>updateCampaignStatistics\<close> the block that updates the campaign
  and checks whether it is complete.
\<close>

definition applyReceiptToLog ::
  "communicationLog \<Rightarrow> receipt \<Rightarrow> nat \<Rightarrow> communicationLog list \<Rightarrow> error + communicationLog list" where
  "applyReceiptToLog l r now ls =
     (if r_status r = ''sent'' then markAsSent l now ls
      else if r_status r = ''delivered'' then markAsDelivered l now ls
      else if r_status r = ''failed'' \<or> r_status r = ''bounced''
      then markAsFailed l (r_errorCode r) (r_errorMessage r) now ls
      else Inr ls)"

definition updateCampaignStatistics :: "string \<Rightarrow> string \<Rightarrow> nat \<Rightarrow> campaign list \<Rightarrow> campaign list" where
  "updateCampaignStatistics cid st now cs =
     (case findById cid cs of
        None \<Rightarrow> cs
      | Some campaign \<Rightarrow>
          (case updateStats campaign (if st = ''bounced'' then ''failed'' else st) cs of
             (c1, cs1) \<Rightarrow>
               (let totalSent = sent (stats c1) + failed (stats c1)
                in if totalSent \<ge> audienceSize c1 \<and> status c1 = ''running''
                   then snd (complete c1 now cs1) else cs1)))"

definition processDeliveryReceipt :: "db \<Rightarrow> receipt \<Rightarrow> nat \<Rightarrow> error option \<times> db" where
  "processDeliveryReceipt d r now =
     (case findOne (r_messageId r) (logs d) of
        None \<Rightarrow> (None, d)
      | Some found \<Rightarrow>
          (let communicationLog = found\<lparr>vendorId := r_vendorMessageId r, vendorResponse := Some r\<rparr>
           in case applyReceiptToLog communicationLog r now (logs d) of
                Inl e \<Rightarrow> (Some e, d)
              | Inr ls \<Rightarrow>
                  (None, d\<lparr>logs := ls,
                            campaigns := updateCampaignStatistics (campaignId communicationLog)
                                           (r_status r) now (campaigns d)\<rparr>)))"

subsection \<open>Engagement tracking endpoints\<close>

text \<open>
  \<open>GET /track/open/:messageId\<close> and \<open>GET /track/click/:messageId\<close>: the store after the
  request. The response (the pixel, the redirect) does not depend on the store.
\<close>

definition trackOpen :: "db \<Rightarrow> string \<Rightarrow> nat \<Rightarrow> db" where
  "trackOpen d mid now =
     (case findOne mid (logs d) of
        None \<Rightarrow> d
      | Some l \<Rightarrow> (case markAsOpened l now (logs d) of Inl e \<Rightarrow> d | Inr ls \<Rightarrow> d\<lparr>logs := ls\<rparr>))"

definition trackClick :: "db \<Rightarrow> string \<Rightarrow> nat \<Rightarrow> db" where
  "trackClick d mid now =
     (case findOne mid (logs d) of
        None \<Rightarrow> d
      | Some l \<Rightarrow> (case markAsClicked l now (logs d) of Inl e \<Rightarrow> d | Inr ls \<Rightarrow> d\<lparr>logs := ls\<rparr>))"

section \<open>Message personalization\<close>

text \<open>
  \<open>String.prototype.replace\<close> with a global regular expression that matches one literal
  text, and a replacement given as a string. The replacement string is expanded for every
  match: \<open>$$\<close> is a dollar sign, \<open>$&\<close> the matched text, \<open>$`\<close> the text before the
  match and \<open>$'\<close> the text after it; the patterns here have no capture groups, so every
  other use of a dollar sign stands for itself. Strings are byte lists (UTF-8), and the
  patterns are ASCII.
\<close>

fun getSubstitution :: "string \<Rightarrow> string \<Rightarrow> string \<Rightarrow> string \<Rightarrow> string" where
  "getSubstitution matched preceding following (c1 # c2 # rest) =
     (if c1 = CHR ''$'' then
        (if c2 = CHR ''$'' then CHR ''$'' # getSubstitution matched preceding following rest
         else if c2 = CHR ''&'' then matched @ getSubstitution matched preceding following rest
         else if c2 = CHR 0x60 then preceding @ getSubstitution matched preceding following rest
         else if c2 = CHR 0x27 then following @ getSubstitution matched preceding following rest
         else c1 # getSubstitution matched preceding following (c2 # rest))
      else c1 # getSubstitution matched preceding following (c2 # rest))"
| "getSubstitution matched preceding following rest = rest"

function replaceFrom :: "string \<Rightarrow> string \<Rightarrow> string \<Rightarrow> string \<Rightarrow> string" where
  "replaceFrom pat rep preceding s =
     (if s = [] then []
      else if pat \<noteq> [] \<and> prefix pat s
      then getSubstitution pat preceding (drop (length pat) s) rep
             @ replaceFrom pat rep (preceding @ pat) (drop (length pat) s)
      else hd s # replaceFrom pat rep (preceding @ [hd s]) (tl s))"
  by pat_completeness auto
termination
  by (relation "measure (\<lambda>(pat, rep, preceding, s). length s)") auto

definition replaceGlobal :: "string \<Rightarrow> string \<Rightarrow> string \<Rightarrow> string" where
  "replaceGlobal pat rep s = replaceFrom pat rep [] s"

text \<open>
  Numbers as text: the decimal digits of a number, and \<open>toLocaleString('en-IN')\<close> for an
  integer, which groups the last three digits and then every two digits before them.
  Both are exact for the integers that a JavaScript number holds exactly and prints in
  plain decimal notation (magnitude at most 2^53 and below 10^21).
\<close>

fun showNat :: "nat \<Rightarrow> string" where
  "showNat n =
     (if n < 10 then [''0123456789'' ! n]
      else showNat (n div 10) @ [''0123456789'' ! (n mod 10)])"

definition showInt :: "int \<Rightarrow> string" where
  "showInt i = (if i < 0 then ''-'' @ showNat (nat (- i)) else showNat (nat i))"

fun groupPairs :: "string \<Rightarrow> string" where
  "groupPairs ds =
     (if length ds \<le> 2 then ds
      else groupPairs (take (length ds - 2) ds) @ '','' @ drop (length ds - 2) ds)"

definition groupIndian :: "string \<Rightarrow> string" where
  "groupIndian ds =
     (if length ds \<le> 3 then ds
      else groupPairs (take (length ds - 3) ds) @ '','' @ drop (length ds - 3) ds)"

definition toLocaleStringIN :: "int \<Rightarrow> string" where
  "toLocaleStringIN i =
     (if i < 0 then ''-'' @ groupIndian (showNat (nat (- i))) else groupIndian (showNat (nat i)))"

text \<open>The rupee sign U+20B9 in UTF-8.\<close>

definition rupee :: string where
  "rupee = [CHR 0xE2, CHR 0x82, CHR 0xB9]"

text \<open>
  \<open>personalizeMessage\<close>: three replacements in a row, each over the result of the one
  before. \<open>customer.visitCount || 0\<close> is the count itself (0 when it is 0), turned into
  text by \<open>replace\<close>.
\<close>

definition personalizeMessage :: "string \<Rightarrow> customer \<Rightarrow> string" where
  "personalizeMessage template c =
     replaceGlobal ''{visitCount}'' (showInt (visitCount c))
       (replaceGlobal ''{totalSpent}'' (rupee @ toLocaleStringIN (totalSpent c))
          (replaceGlobal ''{name}'' (name c) template))"

section \<open>Launching a campaign\<close>

text \<open>
  The length of a JavaScript string counts UTF-16 code units: in UTF-8 every byte that
  is not a continuation byte starts a character, and a character of four bytes takes two
  code units.
\<close>

definition jsLength :: "string \<Rightarrow> nat" where
  "jsLength s =
     length (filter (\<lambda>c. \<not> (128 \<le> (of_char c :: nat) \<and> (of_char c :: nat) < 192)) s)
     + length (filter (\<lambda>c. 240 \<le> (of_char c :: nat)) s)"

text \<open>
  \<open>CommunicationLog.insertMany\<close>: every document is validated first (required paths,
  \<open>message\<close> of at most 2000 characters, the channel and status enums, \<open>retryCount\<close> at
  most 3) and nothing is written when one fails; then the documents are inserted in
  order, and the unique index on \<open>messageId\<close> stops the insertion at the first duplicate.
\<close>

definition validateLog :: "communicationLog \<Rightarrow> error option" where
  "validateLog l =
     (if campaignId l = [] then Some (ValidationError ''campaignId'')
      else if customerId l = [] then Some (ValidationError ''customerId'')
      else if messageId l = [] then Some (ValidationError ''messageId'')
      else if message l = [] \<or> jsLength (message l) > 2000 then Some (ValidationError ''message'')
      else if logChannel l \<notin> set [''email'', ''sms'', ''push'', ''whatsapp'']
      then Some (ValidationError ''channel'')
      else if logStatus l \<notin> set [''pending'', ''sent'', ''delivered'', ''failed'', ''bounced'',
                                  ''opened'', ''clicked'']
      then Some (ValidationError ''status'')
      else if retryCount l > 3 then Some (ValidationError ''retryCount'')
      else None)"

fun insertOrdered ::
  "communicationLog list \<Rightarrow> communicationLog list \<Rightarrow> error option \<times> communicationLog list" where
  "insertOrdered [] ls = (None, ls)"
| "insertOrdered (x # xs) ls =
     (if findOne (messageId x) ls \<noteq> None then (Some (DuplicateKeyError (messageId x)), ls)
      else insertOrdered xs (ls @ [x]))"

definition insertMany ::
  "communicationLog list \<Rightarrow> communicationLog list \<Rightarrow> error option \<times> communicationLog list" where
  "insertMany docs ls =
     (case List.map_filter validateLog docs of
        e # _ \<Rightarrow> (Some e, ls)
      | [] \<Rightarrow> insertOrdered docs ls)"

text \<open>
  The log object built for the customer at position \<open>index\<close> of the audience. The
  clock value and the random suffix of the message identifier are parameters; status and
  retry count take the schema defaults.
\<close>

definition newLog :: "campaign \<Rightarrow> nat \<Rightarrow> (nat \<Rightarrow> string) \<Rightarrow> nat \<Rightarrow> customer \<Rightarrow> communicationLog" where
  "newLog c now rnd index cust =
     \<lparr>campaignId = camp_id c, customerId = cust_id cust,
      messageId = ''MSG-'' @ camp_id c @ ''-'' @ showNat now @ ''-'' @ showNat index @ ''-'' @ rnd index,
      message = personalizeMessage (messageTemplate c) cust,
      logChannel = channel c, logStatus = ''pending'',
      sentAt = None, deliveredAt = None, failedAt = None,
      errorCode = None, errorMessage = None, vendorId = None, vendorResponse = None,
      openedAt = None, clickedAt = None, retryCount = 0, nextRetryAt = None,
      personalizedData = (name cust, totalSpent cust, visitCount cust)\<rparr>"

text \<open>
  The vendor call \<open>axios.post(.../send)\<close>: whether it resolved, and the store when the
  call returns, since receipts may be processed while the dispatcher waits.
  \<open>sendMessagesToVendor\<close> records every submission together with the store at the moment
  the submission is issued, and counts the outcome on the campaign document it holds.
\<close>

type_synonym vendor = "db \<Rightarrow> communicationLog \<Rightarrow> bool \<times> db"

fun sendMessagesToVendor ::
  "vendor \<Rightarrow> communicationLog list \<Rightarrow> campaign \<Rightarrow> db
     \<Rightarrow> campaign \<times> db \<times> (communicationLog \<times> db) list" where
  "sendMessagesToVendor v [] c d = (c, d, [])"
| "sendMessagesToVendor v (l # ls) c d =
     (case v d l of
        (ok, d1) \<Rightarrow>
          (case updateStats c (if ok then ''sent'' else ''failed'') (campaigns d1) of
             (c1, cs1) \<Rightarrow>
               (case sendMessagesToVendor v ls c1 (d1\<lparr>campaigns := cs1\<rparr>) of
                  (c2, d2, submissions) \<Rightarrow> (c2, d2, (l, d) # submissions))))"

definition buildLogs :: "campaign \<Rightarrow> customer list \<Rightarrow> nat \<Rightarrow> (nat \<Rightarrow> string) \<Rightarrow> communicationLog list" where
  "buildLogs c audience now rnd =
     map (\<lambda>(index, cust). newLog c now rnd index cust) (List.enumerate 0 audience)"

definition launchCampaign ::
  "vendor \<Rightarrow> campaign \<Rightarrow> customer list \<Rightarrow> nat \<Rightarrow> (nat \<Rightarrow> string) \<Rightarrow> db
     \<Rightarrow> error option \<times> db \<times> (communicationLog \<times> db) list" where
  "launchCampaign v c audience now rnd d =
     (case start c now (campaigns d) of
        (c1, cs1) \<Rightarrow>
          (let d1 = d\<lparr>campaigns := cs1\<rparr>;
               communicationLogs = buildLogs c1 audience now rnd
           in if length communicationLogs > 0
              then (case insertMany communicationLogs (logs d1) of
                      (Some e, ls) \<Rightarrow> (Some e, d1\<lparr>logs := ls\<rparr>, [])
                    | (None, ls) \<Rightarrow>
                        (case sendMessagesToVendor v communicationLogs c1 (d1\<lparr>logs := ls\<rparr>) of
                           (c2, d2, submissions) \<Rightarrow> (None, d2, submissions)))
              else (None, d1, [])))"

text \<open>
  \<open>POST /campaigns/:id/launch\<close>, after authentication: the response and the store. An
  error thrown by the launch is handed to \<open>next\<close>. The identifier is taken to be a
  well-formed object id, for which \<open>findById\<close> answers with the campaign or with null.
\<close>

datatype response =
    Status200 string
  | Status400 string
  | Status404 string
  | NextError error

definition launchRoute ::
  "vendor \<Rightarrow> db \<Rightarrow> string \<Rightarrow> nat \<Rightarrow> (nat \<Rightarrow> string) \<Rightarrow> response \<times> db" where
  "launchRoute v d cid now rnd =
     (case findById cid (campaigns d) of
        None \<Rightarrow> (Status404 ''Campaign not found'', d)
      | Some c \<Rightarrow>
          if status c \<noteq> ''draft''
          then (Status400 ''Only draft campaigns can be launched'', d)
          else (let audience = evaluateAudience (audienceRules c) (customers d)
                in case launchCampaign v c audience now rnd d of
                     (Some e, d', _) \<Rightarrow> (NextError e, d')
                   | (None, d', _) \<Rightarrow> (Status200 ''Campaign launched successfully'', d')))"

section \<open>Observations and sample data\<close>

definition statusOf :: "string \<Rightarrow> db \<Rightarrow> string option" where
  "statusOf mid d = map_option logStatus (findOne mid (logs d))"

definition statsOf :: "string \<Rightarrow> db \<Rightarrow> campaign_stats option" where
  "statsOf cid d = map_option stats (findById cid (campaigns d))"

definition audienceSizeOf :: "string \<Rightarrow> db \<Rightarrow> nat option" where
  "audienceSizeOf cid d = map_option audienceSize (findById cid (campaigns d))"

text \<open>
  A store with the customer John Doe and one draft campaign that targets customers who
  spent more than 10000; its audience size, 1, is the size of that audience.
\<close>

definition johnDoe :: customer where
  "johnDoe = \<lparr>cust_id = ''u1'', name = ''John Doe'', totalSpent = 15000, visitCount = 8,
               custStatus = ''active'', city = Some ''Pune''\<rparr>"

definition bigSpenders :: rules where
  "bigSpenders = \<lparr>conditions = [\<lparr>field = ''totalSpent'', operator = ''gt'', cond_value = VNum 10000\<rparr>],
                   logic = ''AND''\<rparr>"

definition draftCampaign :: campaign where
  "draftCampaign =
     \<lparr>camp_id = ''c1'',
      messageTemplate = ''Hi {name}, you spent {totalSpent} in {visitCount} visits {code}'',
      audienceRules = bigSpenders, channel = ''email'', audienceSize = 1, status = ''draft'',
      startedAt = None, completedAt = None,
      stats = \<lparr>sent = 0, delivered = 0, failed = 0, pending = 0\<rparr>\<rparr>"

definition draftDb :: db where
  "draftDb = \<lparr>customers = [johnDoe], campaigns = [draftCampaign], logs = []\<rparr>"

text \<open>A vendor that accepts every message and lets no receipt in before it answers.\<close>

definition acceptingVendor :: vendor where
  "acceptingVendor d l = (True, d)"

definition suffixes6 :: "nat \<Rightarrow> string" where
  "suffixes6 index = ''k3x9qa''"

text \<open>
  The log entry and the store that launching the draft campaign at time 1000 yields.
\<close>

definition launchedLog :: communicationLog where
  "launchedLog =
     \<lparr>campaignId = ''c1'', customerId = ''u1'', messageId = ''MSG-c1-1000-0-k3x9qa'',
      message = ''Hi John Doe, you spent '' @ rupee @ ''15,000 in 8 visits {code}'',
      logChannel = ''email'', logStatus = ''pending'',
      sentAt = None, deliveredAt = None, failedAt = None,
      errorCode = None, errorMessage = None, vendorId = None, vendorResponse = None,
      openedAt = None, clickedAt = None, retryCount = 0, nextRetryAt = None,
      personalizedData = (''John Doe'', 15000, 8)\<rparr>"

definition launchedDb :: db where
  "launchedDb =
     \<lparr>customers = [johnDoe],
      campaigns = [draftCampaign\<lparr>status := ''running'', startedAt := Some 1000,
                     stats := \<lparr>sent = 1, delivered = 0, failed = 0, pending = 0\<rparr>\<rparr>],
      logs = [launchedLog]\<rparr>"

text \<open>
  A store with a running campaign of audience size 2 and one pending log entry, and
  receipts for that entry.
\<close>

definition pendingLog :: communicationLog where
  "pendingLog =
     \<lparr>campaignId = ''c2'', customerId = ''u1'', messageId = ''MSG-c2-1-0-abcdef'',
      message = ''Hi John Doe'', logChannel = ''email'', logStatus = ''pending'',
      sentAt = None, deliveredAt = None, failedAt = None,
      errorCode = None, errorMessage = None, vendorId = None, vendorResponse = None,
      openedAt = None, clickedAt = None, retryCount = 0, nextRetryAt = None,
      personalizedData = (''John Doe'', 15000, 8)\<rparr>"

definition runningCampaign :: campaign where
  "runningCampaign =
     \<lparr>camp_id = ''c2'', messageTemplate = ''Hi {name}'', audienceRules = bigSpenders,
      channel = ''email'', audienceSize = 2, status = ''running'',
      startedAt = Some 1, completedAt = None,
      stats = \<lparr>sent = 0, delivered = 0, failed = 0, pending = 0\<rparr>\<rparr>"

definition runningDb :: db where
  "runningDb = \<lparr>customers = [johnDoe], campaigns = [runningCampaign], logs = [pendingLog]\<rparr>"

definition receiptFor :: "string \<Rightarrow> string \<Rightarrow> receipt" where
  "receiptFor mid st =
     \<lparr>r_messageId = mid, r_status = st, r_timestamp = 5,
      r_errorCode = (if st = ''failed'' \<or> st = ''bounced'' then Some ''DELIVERY_FAILED'' else None),
      r_errorMessage = (if st = ''failed'' \<or> st = ''bounced''
                        then Some ''Temporary delivery failure - recipient unavailable'' else None),
      r_vendorMessageId = Some ''VENDOR-5-xyz''\<rparr>"

text \<open>
  A vendor whose sent receipt for a message is processed the moment the message is
  submitted, before the vendor call returns.
\<close>

definition eagerVendor :: vendor where
  "eagerVendor d l = (True, snd (processDeliveryReceipt d (receiptFor (messageId l) ''sent'') 1500))"

text \<open>
  The running store after three failed receipts for its entry, processed at times 10, 20
  and 30.
\<close>

definition thriceFailedDb :: db where
  "thriceFailedDb =
     snd (processDeliveryReceipt
       (snd (processDeliveryReceipt
          (snd (processDeliveryReceipt runningDb (receiptFor ''MSG-c2-1-0-abcdef'' ''failed'') 10))
          (receiptFor ''MSG-c2-1-0-abcdef'' ''failed'') 20))
       (receiptFor ''MSG-c2-1-0-abcdef'' ''failed'') 30)"

text \<open>The running store after a delivered receipt for its entry, processed at time 10.\<close>

definition deliveredDb :: db where
  "deliveredDb =
     snd (processDeliveryReceipt runningDb (receiptFor ''MSG-c2-1-0-abcdef'' ''delivered'') 10)"

text \<open>
  Three customers who spent 5000, 15000 and 20000, and a rule with two conditions on
  the same field: more than 10000 and less than 20000.
\<close>

definition spender :: "string \<Rightarrow> int \<Rightarrow> customer" where
  "spender i amount = \<lparr>cust_id = i, name = ''Customer'', totalSpent = amount, visitCount = 1,
                         custStatus = ''active'', city = None\<rparr>"

definition threeSpenders :: "customer list" where
  "threeSpenders = [spender ''u1'' 5000, spender ''u2'' 15000, spender ''u3'' 20000]"

definition spentOver10000 :: condition where
  "spentOver10000 = \<lparr>field = ''totalSpent'', operator = ''gt'', cond_value = VNum 10000\<rparr>"

definition spentUnder20000 :: condition where
  "spentUnder20000 = \<lparr>field = ''totalSpent'', operator = ''lt'', cond_value = VNum 20000\<rparr>"

definition midRange :: rules where
  "midRange = \<lparr>conditions = [spentOver10000, spentUnder20000], logic = ''AND''\<rparr>"

text \<open>
  The audience as the rule defines it, condition by condition: with OR the customers
  matching at least one condition, otherwise the customers matching every condition,
  each condition being put to the database as a query of its own.
\<close>

definition matchesCondition :: "customer \<Rightarrow> condition \<Rightarrow> bool" where
  "matchesCondition c cond = matchesQuery c [buildConditionQuery cond]"

definition audienceByCondition :: "rules \<Rightarrow> customer list \<Rightarrow> customer list" where
  "audienceByCondition rs cs =
     (if logic rs = ''OR''
      then filter (\<lambda>c. list_ex (matchesCondition c) (conditions rs)) cs
      else filter (\<lambda>c. list_all (matchesCondition c) (conditions rs)) cs)"

text \<open>
  The recursive equations of the text functions are unfolded on demand only.
\<close>

declare replaceFrom.simps [simp del]
declare showNat.simps [simp del]
declare groupPairs.simps [simp del]

section \<open>Value category\<close>

text \<open>
  C9. The derived value category of a customer is "new" exactly when totalSpent is below
  1000, "regular" exactly when it is at least 1000 and below 10000, "high-value" exactly
  when it is at least 10000 and below 50000, and "premium" exactly when it is at least
  50000. This holds for every totalSpent, in particular for every non-negative one.
\<close>

theorem valueCategory_thresholds:
  "(valueCategory c = ''new'' \<longleftrightarrow> totalSpent c < 1000) \<and>
   (valueCategory c = ''regular'' \<longleftrightarrow> 1000 \<le> totalSpent c \<and> totalSpent c < 10000) \<and>
   (valueCategory c = ''high-value'' \<longleftrightarrow> 10000 \<le> totalSpent c \<and> totalSpent c < 50000) \<and>
   (valueCategory c = ''premium'' \<longleftrightarrow> totalSpent c \<ge> 50000)"
  by (simp add: valueCategory_def)

theorem valueCategory_thresholds_witness:
  "valueCategory \<lparr>cust_id = ''c1'', name = ''John Doe'', totalSpent = 15000,
      visitCount = 8, custStatus = ''active'', city = None\<rparr> = ''high-value''"
  using valueCategory_thresholds
    [of "\<lparr>cust_id = ''c1'', name = ''John Doe'', totalSpent = 15000,
      visitCount = 8, custStatus = ''active'', city = None\<rparr>"]
  by simp

section \<open>Lookup and save\<close>

lemmas sample_defs = runningDb_def runningCampaign_def pendingLog_def receiptFor_def johnDoe_def
  bigSpenders_def draftDb_def draftCampaign_def acceptingVendor_def suffixes6_def

lemmas receipt_defs = processDeliveryReceipt_def applyReceiptToLog_def markAsSent_def
  markAsDelivered_def markAsFailed_def retryDelayMinutes_def saveLog_def findOne_def
  updateCampaignStatistics_def updateStats_def complete_def findById_def incStat_def
  writeStat_def statusOf_def statsOf_def audienceSizeOf_def Let_def

lemma findOne_Some_id: "findOne mid ls = Some l \<Longrightarrow> messageId l = mid"
  unfolding findOne_def by (induction ls) (auto split: if_splits)

lemma findOne_saveLog:
  "findOne mid (saveLog l' ls) =
     (case findOne mid ls of None \<Rightarrow> None
      | Some x \<Rightarrow> if messageId l' = mid then Some l' else Some x)"
  unfolding findOne_def saveLog_def by (induction ls) auto

lemma findById_map:
  "(\<And>x. camp_id (f x) = camp_id x) \<Longrightarrow> findById cid (map f cs) = map_option f (findById cid cs)"
  unfolding findById_def by (induction cs) auto

lemma findById_Some_id: "findById cid cs = Some c \<Longrightarrow> camp_id c = cid"
  unfolding findById_def by (induction cs) (auto split: if_splits)

lemma writeStat_incStat: "writeStat key (incStat key st) st = incStat key st"
  by (simp add: writeStat_def incStat_def)

lemma findById_updateCampaignStatistics:
  "findById cid cs = Some c \<Longrightarrow>
   \<exists>c'. findById cid (updateCampaignStatistics cid st now cs) = Some c' \<and>
        stats c' = incStat (if st = ''bounced'' then ''failed'' else st) (stats c) \<and>
        audienceSize c' = audienceSize c"
  apply (frule findById_Some_id)
  apply (simp add: updateCampaignStatistics_def updateStats_def complete_def Let_def
      findById_map writeStat_incStat o_def)
  done

lemma applyReceiptToLog_failed:
  "r_status r = ''failed'' \<or> r_status r = ''bounced'' \<Longrightarrow>
   applyReceiptToLog l r now ls = markAsFailed l (r_errorCode r) (r_errorMessage r) now ls"
  by (auto simp: applyReceiptToLog_def)

lemma applyReceiptToLog_status:
  assumes "r_status r \<in> set [''sent'', ''delivered'', ''failed'', ''bounced'']"
      and "applyReceiptToLog l r now ls = Inr ls'"
      and "findOne (messageId l) ls = Some x"
  shows "\<exists>l'. findOne (messageId l) ls' = Some l' \<and> messageId l' = messageId l \<and>
           campaignId l' = campaignId l \<and>
           logStatus l' = (if r_status r = ''bounced'' then ''failed'' else r_status r)"
  using assms
  by (auto simp: applyReceiptToLog_def markAsSent_def markAsDelivered_def markAsFailed_def
      Let_def findOne_saveLog split: if_splits)

section \<open>Unknown message identifiers\<close>

text \<open>
  C7. A receipt whose messageId matches no delivery-log entry is discarded: the
  receipt-processing operation returns normally (no error), and the store afterwards is
  the store before, so no log entry is created and every campaign and every existing log
  entry is unchanged.
\<close>

theorem orphan_receipt_discarded:
  "findOne (r_messageId r) (logs d) = None \<Longrightarrow> processDeliveryReceipt d r now = (None, d)"
  by (simp add: processDeliveryReceipt_def)

theorem orphan_receipt_discarded_witness:
  "findOne ''MSG-unknown'' (logs runningDb) = None \<and>
   processDeliveryReceipt runningDb (receiptFor ''MSG-unknown'' ''delivered'') 10 = (None, runningDb)"
proof -
  have h: "findOne (r_messageId (receiptFor ''MSG-unknown'' ''delivered'')) (logs runningDb) = None"
    by (simp add: sample_defs findOne_def)
  from orphan_receipt_discarded [OF h, of 10] h show ?thesis
    by (simp add: receiptFor_def)
qed

section \<open>Failed receipts and retry bookkeeping\<close>

text \<open>
  C4, as the claim states it, fails for an entry that has already failed three times: the
  fourth failed receipt is rejected by the validator of \<open>retryCount\<close>, the operation
  throws, and the stored entry keeps the retry count 3 and the retry time that the third
  failure (processed at time 30) gave it, 30 + 40 minutes; nothing is set from the
  processing time 40.
\<close>

theorem fourth_failed_receipt_rejected:
  "processDeliveryReceipt thriceFailedDb (receiptFor ''MSG-c2-1-0-abcdef'' ''failed'') 40
     = (Some (ValidationError ''retryCount''), thriceFailedDb) \<and>
   map_option retryCount (findOne ''MSG-c2-1-0-abcdef'' (logs thriceFailedDb)) = Some 3 \<and>
   map_option nextRetryAt (findOne ''MSG-c2-1-0-abcdef'' (logs thriceFailedDb))
     = Some (Some (30 + 40 * 60 * 1000))"
  by (simp add: thriceFailedDb_def sample_defs receipt_defs)

text \<open>
  C4, amended. For an entry whose retryCount is below 3, processing a failed or bounced
  receipt returns normally and stores the entry marked failed, with the error code and
  message of the receipt, retryCount incremented by exactly one and nextRetryAt equal to
  the processing time plus 5 minutes times 2 to the power of the incremented retryCount;
  so the first failed receipt gives retryCount 1 and nextRetryAt = processing time + 10
  minutes. For an entry whose retryCount is already 3 the save is rejected (the schema caps
  retryCount at 3): the operation throws a validation error and the store is unchanged.
\<close>

theorem failed_receipt_backoff:
  assumes "findOne (r_messageId r) (logs d) = Some l"
      and "r_status r = ''failed'' \<or> r_status r = ''bounced''"
  shows "(retryCount l < 3 \<longrightarrow>
            fst (processDeliveryReceipt d r now) = None \<and>
            findOne (r_messageId r) (logs (snd (processDeliveryReceipt d r now))) =
              Some (l\<lparr>logStatus := ''failed'', failedAt := Some now,
                      errorCode := r_errorCode r, errorMessage := r_errorMessage r,
                      vendorId := r_vendorMessageId r, vendorResponse := Some r,
                      retryCount := retryCount l + 1,
                      nextRetryAt := Some (now + (5 * 2 ^ (retryCount l + 1)) * 60 * 1000)\<rparr>)) \<and>
         (retryCount l = 0 \<longrightarrow>
            map_option retryCount
              (findOne (r_messageId r) (logs (snd (processDeliveryReceipt d r now)))) = Some 1 \<and>
            map_option nextRetryAt
              (findOne (r_messageId r) (logs (snd (processDeliveryReceipt d r now))))
              = Some (Some (now + 10 * 60 * 1000))) \<and>
         (retryCount l \<ge> 3 \<longrightarrow>
            processDeliveryReceipt d r now = (Some (ValidationError ''retryCount''), d))"
proof -
  have mid: "messageId l = r_messageId r" using assms(1) by (rule findOne_Some_id)
  show ?thesis
    using assms mid
    by (auto simp: processDeliveryReceipt_def applyReceiptToLog_failed markAsFailed_def Let_def
        findOne_saveLog retryDelayMinutes_def)
qed

theorem failed_receipt_backoff_witness:
  "findOne ''MSG-c2-1-0-abcdef'' (logs runningDb) = Some pendingLog \<and>
   retryCount pendingLog = 0 \<and>
   fst (processDeliveryReceipt runningDb (receiptFor ''MSG-c2-1-0-abcdef'' ''bounced'') 7) = None \<and>
   map_option retryCount (findOne ''MSG-c2-1-0-abcdef''
      (logs (snd (processDeliveryReceipt runningDb (receiptFor ''MSG-c2-1-0-abcdef'' ''bounced'') 7))))
     = Some 1 \<and>
   map_option nextRetryAt (findOne ''MSG-c2-1-0-abcdef''
      (logs (snd (processDeliveryReceipt runningDb (receiptFor ''MSG-c2-1-0-abcdef'' ''bounced'') 7))))
     = Some (Some 600007)"
proof -
  let ?r = "receiptFor ''MSG-c2-1-0-abcdef'' ''bounced''"
  have h1: "findOne (r_messageId ?r) (logs runningDb) = Some pendingLog"
    by (simp add: sample_defs findOne_def)
  have h2: "r_status ?r = ''failed'' \<or> r_status ?r = ''bounced''"
    by (simp add: receiptFor_def)
  have h3: "retryCount pendingLog = 0" by (simp add: pendingLog_def)
  have m: "r_messageId ?r = ''MSG-c2-1-0-abcdef''" by (simp add: receiptFor_def)
  from failed_receipt_backoff [OF h1 h2, of 7] h1 h3 show ?thesis
    unfolding m by simp
qed

section \<open>Duplicate receipts\<close>

text \<open>
  What the receipt processing does with a receipt it has already applied. It never
  looks at the entry's current status before it counts: a second application of a
  receipt (sent, delivered, failed or bounced) sets the entry's status to the value it
  already has, and, when it returns normally and the owning campaign exists, passes
  through \<open>updateStats\<close> again, so the counter for the receipt's status (failed for
  bounced) grows by one more. When the second application throws (a failed or bounced
  receipt at the retry limit) the store is unchanged.
\<close>

lemma duplicate_receipt_recounted:
  assumes found: "findOne (r_messageId r) (logs d) = Some l"
      and st: "r_status r \<in> set [''sent'', ''delivered'', ''failed'', ''bounced'']"
      and once: "processDeliveryReceipt d r t1 = (None, d1)"
      and twice: "processDeliveryReceipt d1 r t2 = (e2, d2)"
  shows "statusOf (r_messageId r) d2 = statusOf (r_messageId r) d1 \<and>
         statusOf (r_messageId r) d1 = Some (if r_status r = ''bounced'' then ''failed'' else r_status r) \<and>
         (e2 \<noteq> None \<longrightarrow> d2 = d1) \<and>
         (e2 = None \<longrightarrow>
            (\<forall>st1. statsOf (campaignId l) d1 = Some st1 \<longrightarrow>
               statsOf (campaignId l) d2 =
                 Some (incStat (if r_status r = ''bounced'' then ''failed'' else r_status r) st1)))"
proof -
  let ?l0 = "l\<lparr>vendorId := r_vendorMessageId r, vendorResponse := Some r\<rparr>"
  let ?key = "if r_status r = ''bounced'' then ''failed'' else r_status r"
  have mid: "messageId l = r_messageId r" using found by (rule findOne_Some_id)
  from once found obtain ls1 where
    a1: "applyReceiptToLog ?l0 r t1 (logs d) = Inr ls1" and
    d1: "d1 = d\<lparr>logs := ls1, campaigns := updateCampaignStatistics (campaignId l) (r_status r) t1 (campaigns d)\<rparr>"
    by (auto simp: processDeliveryReceipt_def Let_def split: sum.splits)
  from applyReceiptToLog_status[OF st a1] found mid obtain l1 where
    f1: "findOne (r_messageId r) ls1 = Some l1" and m1: "messageId l1 = r_messageId r" and
    c1: "campaignId l1 = campaignId l" and
    s1: "logStatus l1 = ?key"
    by auto
  have f1': "findOne (r_messageId r) (logs d1) = Some l1" using f1 d1 by simp
  have once_status: "statusOf (r_messageId r) d1 = Some ?key"
    using f1' s1 by (simp add: statusOf_def)
  let ?l1 = "l1\<lparr>vendorId := r_vendorMessageId r, vendorResponse := Some r\<rparr>"
  show ?thesis
  proof (cases "applyReceiptToLog ?l1 r t2 (logs d1)")
    case (Inl e)
    with twice f1' have "e2 = Some e" "d2 = d1"
      by (auto simp: processDeliveryReceipt_def Let_def)
    then show ?thesis using once_status by simp
  next
    case (Inr ls2)
    with twice f1' have e2: "e2 = None" and
      d2: "d2 = d1\<lparr>logs := ls2, campaigns := updateCampaignStatistics (campaignId l) (r_status r) t2 (campaigns d1)\<rparr>"
      by (auto simp: processDeliveryReceipt_def Let_def c1)
    from applyReceiptToLog_status[OF st Inr] f1' m1 obtain l2 where
      "findOne (r_messageId r) ls2 = Some l2" "logStatus l2 = ?key"
      by auto
    then have same: "statusOf (r_messageId r) d2 = statusOf (r_messageId r) d1"
      using f1' s1 d2 by (simp add: statusOf_def)
    have counted: "\<forall>st1. statsOf (campaignId l) d1 = Some st1 \<longrightarrow>
               statsOf (campaignId l) d2 = Some (incStat ?key st1)"
    proof (intro allI impI)
      fix st1 assume "statsOf (campaignId l) d1 = Some st1"
      then obtain c where c: "findById (campaignId l) (campaigns d1) = Some c" "stats c = st1"
        by (auto simp: statsOf_def)
      from findById_updateCampaignStatistics[OF c(1), of "r_status r" t2] c(2)
      show "statsOf (campaignId l) d2 = Some (incStat ?key st1)"
        unfolding d2 statsOf_def by auto
    qed
    from same once_status counted e2 show ?thesis by simp
  qed
qed


lemma duplicate_receipt_recounted_sample:
  "findOne ''MSG-c2-1-0-abcdef'' (logs runningDb) = Some pendingLog \<and>
   statusOf ''MSG-c2-1-0-abcdef''
     (snd (processDeliveryReceipt
       (snd (processDeliveryReceipt runningDb (receiptFor ''MSG-c2-1-0-abcdef'' ''delivered'') 10))
       (receiptFor ''MSG-c2-1-0-abcdef'' ''delivered'') 20)) = Some ''delivered'' \<and>
   statsOf ''c2''
     (snd (processDeliveryReceipt
       (snd (processDeliveryReceipt runningDb (receiptFor ''MSG-c2-1-0-abcdef'' ''delivered'') 10))
       (receiptFor ''MSG-c2-1-0-abcdef'' ''delivered'') 20))
     = Some \<lparr>sent = 0, delivered = 2, failed = 0, pending = 0\<rparr>"
proof -
  let ?r = "receiptFor ''MSG-c2-1-0-abcdef'' ''delivered''"
  let ?d1 = "snd (processDeliveryReceipt runningDb ?r 10)"
  let ?res = "processDeliveryReceipt ?d1 ?r 20"
  have h1: "findOne (r_messageId ?r) (logs runningDb) = Some pendingLog"
    by (simp add: sample_defs findOne_def)
  have h2: "r_status ?r \<in> set [''sent'', ''delivered'', ''failed'', ''bounced'']"
    by (simp add: receiptFor_def)
  have h3: "processDeliveryReceipt runningDb ?r 10 = (None, ?d1)"
    by (simp add: sample_defs receipt_defs)
  have h4: "?res = (fst ?res, snd ?res)" by simp
  have e2: "fst ?res = None" by (simp add: sample_defs receipt_defs)
  have s1: "statsOf (campaignId pendingLog) ?d1 = Some \<lparr>sent = 0, delivered = 1, failed = 0, pending = 0\<rparr>"
    by (simp add: sample_defs receipt_defs)
  have m: "r_messageId ?r = ''MSG-c2-1-0-abcdef''" "r_status ?r = ''delivered''"
    "campaignId pendingLog = ''c2''"
    by (simp_all add: receiptFor_def pendingLog_def)
  from duplicate_receipt_recounted [OF h1 h2 h3 h4] e2 s1 h1 show ?thesis
    unfolding m by (simp add: incStat_def)
qed

text \<open>
  C1. The code is not idempotent on the campaign counters. The running campaign c2 has
  audience size 2 and one pending entry. After the first application of the entry's sent
  receipt the entry is sent, the campaign has sent = 1 and is still running. After the
  second application of the same receipt the entry is still sent, but the campaign has
  sent = 2 and, since sent + failed has reached the audience size, is completed, after
  a single message. The claim requires the second application to leave every counter as
  the first left it.
\<close>

theorem receipt_counted_twice:
  "statusOf ''MSG-c2-1-0-abcdef''
     (snd (processDeliveryReceipt runningDb (receiptFor ''MSG-c2-1-0-abcdef'' ''sent'') 10))
     = Some ''sent'' \<and>
   statsOf ''c2'' (snd (processDeliveryReceipt runningDb (receiptFor ''MSG-c2-1-0-abcdef'' ''sent'') 10))
     = Some \<lparr>sent = 1, delivered = 0, failed = 0, pending = 0\<rparr> \<and>
   map_option status (findById ''c2'' (campaigns
     (snd (processDeliveryReceipt runningDb (receiptFor ''MSG-c2-1-0-abcdef'' ''sent'') 10))))
     = Some ''running'' \<and>
   statusOf ''MSG-c2-1-0-abcdef'' (snd (processDeliveryReceipt
       (snd (processDeliveryReceipt runningDb (receiptFor ''MSG-c2-1-0-abcdef'' ''sent'') 10))
       (receiptFor ''MSG-c2-1-0-abcdef'' ''sent'') 20))
     = Some ''sent'' \<and>
   statsOf ''c2'' (snd (processDeliveryReceipt
       (snd (processDeliveryReceipt runningDb (receiptFor ''MSG-c2-1-0-abcdef'' ''sent'') 10))
       (receiptFor ''MSG-c2-1-0-abcdef'' ''sent'') 20))
     = Some \<lparr>sent = 2, delivered = 0, failed = 0, pending = 0\<rparr> \<and>
   map_option status (findById ''c2'' (campaigns (snd (processDeliveryReceipt
       (snd (processDeliveryReceipt runningDb (receiptFor ''MSG-c2-1-0-abcdef'' ''sent'') 10))
       (receiptFor ''MSG-c2-1-0-abcdef'' ''sent'') 20))))
     = Some ''completed''"
  by (simp add: sample_defs receipt_defs)

section \<open>Engagement tracking\<close>

text \<open>
  C10. markAsOpened changes an entry, to status opened with openedAt set, only when its
  status is delivered, and markAsClicked, to status clicked with clickedAt set, only when
  its status is delivered or opened; in any other status each of them writes nothing.
  So the open-tracking endpoint leaves the store unchanged for an entry that is not
  delivered, the click-tracking endpoint leaves it unchanged for an entry that is neither
  delivered nor opened, and on a delivered (or, for clicks, opened) entry they store
  exactly the guarded update.
\<close>

theorem engagement_guards:
  "(logStatus l = ''delivered'' \<longrightarrow>
      markAsOpened l now ls = Inr (saveLog (l\<lparr>logStatus := ''opened'', openedAt := Some now\<rparr>) ls)) \<and>
   (logStatus l \<noteq> ''delivered'' \<longrightarrow> markAsOpened l now ls = Inr ls) \<and>
   (logStatus l = ''delivered'' \<or> logStatus l = ''opened'' \<longrightarrow>
      markAsClicked l now ls = Inr (saveLog (l\<lparr>logStatus := ''clicked'', clickedAt := Some now\<rparr>) ls)) \<and>
   (logStatus l \<noteq> ''delivered'' \<and> logStatus l \<noteq> ''opened'' \<longrightarrow> markAsClicked l now ls = Inr ls) \<and>
   (findOne mid (logs d) = Some l \<and> logStatus l = ''delivered'' \<longrightarrow>
      findOne mid (logs (trackOpen d mid now)) = Some (l\<lparr>logStatus := ''opened'', openedAt := Some now\<rparr>)) \<and>
   (findOne mid (logs d) = Some l \<and> logStatus l \<noteq> ''delivered'' \<longrightarrow> trackOpen d mid now = d) \<and>
   (findOne mid (logs d) = Some l \<and> (logStatus l = ''delivered'' \<or> logStatus l = ''opened'') \<longrightarrow>
      findOne mid (logs (trackClick d mid now)) = Some (l\<lparr>logStatus := ''clicked'', clickedAt := Some now\<rparr>)) \<and>
   (findOne mid (logs d) = Some l \<and> logStatus l \<noteq> ''delivered'' \<and> logStatus l \<noteq> ''opened'' \<longrightarrow>
      trackClick d mid now = d)"
proof -
  have id: "findOne mid (logs d) = Some l \<Longrightarrow> messageId l = mid"
    by (rule findOne_Some_id)
  show ?thesis
    using id
    by (auto simp: markAsOpened_def markAsClicked_def trackOpen_def trackClick_def findOne_saveLog)
qed

theorem engagement_guards_witness:
  "findOne ''MSG-c2-1-0-abcdef'' (logs runningDb) = Some pendingLog \<and>
   logStatus pendingLog = ''pending'' \<and>
   trackOpen runningDb ''MSG-c2-1-0-abcdef'' 50 = runningDb \<and>
   trackClick runningDb ''MSG-c2-1-0-abcdef'' 50 = runningDb \<and>
   statusOf ''MSG-c2-1-0-abcdef'' deliveredDb = Some ''delivered'' \<and>
   statusOf ''MSG-c2-1-0-abcdef'' (trackOpen deliveredDb ''MSG-c2-1-0-abcdef'' 50) = Some ''opened'' \<and>
   statusOf ''MSG-c2-1-0-abcdef'' (trackClick deliveredDb ''MSG-c2-1-0-abcdef'' 50) = Some ''clicked''"
proof -
  let ?mid = "''MSG-c2-1-0-abcdef''"
  let ?l = "the (findOne ?mid (logs deliveredDb))"
  have p1: "findOne ?mid (logs runningDb) = Some pendingLog"
    by (simp add: sample_defs findOne_def)
  have p2: "logStatus pendingLog = ''pending''"
    by (simp add: pendingLog_def)
  have q1: "findOne ?mid (logs deliveredDb) = Some ?l"
    by (simp add: deliveredDb_def sample_defs receipt_defs)
  have q2: "logStatus ?l = ''delivered''"
    by (simp add: deliveredDb_def sample_defs receipt_defs)
  from engagement_guards [of pendingLog 50 "[]" ?mid runningDb] p1 p2
  have a: "trackOpen runningDb ?mid 50 = runningDb \<and> trackClick runningDb ?mid 50 = runningDb"
    by simp
  from engagement_guards [of ?l 50 "[]" ?mid deliveredDb] q1 q2
  have b: "statusOf ?mid (trackOpen deliveredDb ?mid 50) = Some ''opened'' \<and>
           statusOf ?mid (trackClick deliveredDb ?mid 50) = Some ''clicked''"
    by (simp add: statusOf_def)
  have c: "statusOf ?mid deliveredDb = Some ''delivered''"
    by (simp add: deliveredDb_def sample_defs receipt_defs)
  from p1 p2 a b c show ?thesis by simp
qed

section \<open>Launching a campaign that is not a draft\<close>

text \<open>
  C8. For a campaign whose status is not draft, the launch endpoint answers with HTTP 400
  and leaves the store as it was: the campaign's status, timestamps, stats and audienceSize
  are unchanged and no delivery-log entry is created.
\<close>

theorem launch_rejects_non_draft:
  "findById cid (campaigns d) = Some c \<Longrightarrow> status c \<noteq> ''draft'' \<Longrightarrow>
   launchRoute v d cid now rnd = (Status400 ''Only draft campaigns can be launched'', d)"
  by (simp add: launchRoute_def)

theorem launch_rejects_non_draft_witness:
  "findById ''c2'' (campaigns runningDb) = Some runningCampaign \<and>
   status runningCampaign \<noteq> ''draft'' \<and>
   launchRoute acceptingVendor runningDb ''c2'' 50 suffixes6
     = (Status400 ''Only draft campaigns can be launched'', runningDb)"
proof -
  have h1: "findById ''c2'' (campaigns runningDb) = Some runningCampaign"
    by (simp add: sample_defs findById_def)
  have h2: "status runningCampaign \<noteq> ''draft''"
    by (simp add: runningCampaign_def)
  from launch_rejects_non_draft [OF h1 h2, of acceptingVendor 50 suffixes6] h1 h2
  show ?thesis by simp
qed

section \<open>Campaign counters against the audience size\<close>

lemmas audience_defs = evaluateAudience_def assignAll_def buildConditionQuery_def matchesQuery_def
  fieldValue_def eqMatch_def audienceByCondition_def matchesCondition_def

lemmas text_defs = personalizeMessage_def replaceGlobal_def replaceFrom.simps showNat.simps
  groupPairs.simps showInt_def toLocaleStringIN_def groupIndian_def rupee_def

lemma draft_audience: "evaluateAudience (audienceRules draftCampaign) (customers draftDb) = [johnDoe]"
  by (simp add: sample_defs audience_defs)

lemma draft_message:
  "personalizeMessage (messageTemplate draftCampaign) johnDoe = message launchedLog"
  by (simp add: draftCampaign_def johnDoe_def launchedLog_def text_defs)

lemma draft_logs:
  "buildLogs (draftCampaign\<lparr>status := ''running'', startedAt := Some 1000\<rparr>) [johnDoe] 1000 suffixes6
     = [launchedLog]"
proof -
  have "messageTemplate (draftCampaign\<lparr>status := ''running'', startedAt := Some 1000\<rparr>)
          = messageTemplate draftCampaign" by simp
  then show ?thesis
    unfolding buildLogs_def newLog_def
    apply (simp add: draft_message)
    apply (simp add: launchedLog_def draftCampaign_def johnDoe_def suffixes6_def showNat.simps)
    done
qed

lemma launch_of_draft:
  "launchRoute acceptingVendor draftDb ''c1'' 1000 suffixes6
     = (Status200 ''Campaign launched successfully'', launchedDb)"
proof -
  have c: "findById ''c1'' (campaigns draftDb) = Some draftCampaign"
    by (simp add: draftDb_def draftCampaign_def findById_def)
  have s: "status draftCampaign = ''draft''" by (simp add: draftCampaign_def)
  have st: "start draftCampaign 1000 (campaigns draftDb)
              = (draftCampaign\<lparr>status := ''running'', startedAt := Some 1000\<rparr>,
                 [draftCampaign\<lparr>status := ''running'', startedAt := Some 1000\<rparr>])"
    by (simp add: start_def draftDb_def)
  have ins: "insertMany [launchedLog] [] = (None, [launchedLog])"
    by (simp add: insertMany_def validateLog_def List.map_filter_def launchedLog_def findOne_def
        rupee_def jsLength_def)
  show ?thesis
    unfolding launchRoute_def launchCampaign_def
    apply (simp add: c s draft_audience st draft_logs)
    apply (simp add: draftDb_def ins acceptingVendor_def updateStats_def incStat_def writeStat_def
        launchedDb_def draftCampaign_def Let_def)
    done
qed

text \<open>
  C2. The code counts one message twice. Launching the draft campaign (audience size 1,
  one matching customer) with a vendor that accepts the message counts it as sent when the
  vendor call returns (sent = 1, the entry still pending); the vendor's sent receipt for
  the same message counts it again, so the campaign has sent = 2 with audienceSize 1,
  and sent + failed exceeds the audience size.
\<close>

theorem sent_counted_at_send_and_at_receipt:
  "launchRoute acceptingVendor draftDb ''c1'' 1000 suffixes6
     = (Status200 ''Campaign launched successfully'', launchedDb) \<and>
   statusOf ''MSG-c1-1000-0-k3x9qa'' launchedDb = Some ''pending'' \<and>
   statsOf ''c1'' launchedDb = Some \<lparr>sent = 1, delivered = 0, failed = 0, pending = 0\<rparr> \<and>
   statsOf ''c1'' (snd (processDeliveryReceipt launchedDb
                         (receiptFor ''MSG-c1-1000-0-k3x9qa'' ''sent'') 2000))
     = Some \<lparr>sent = 2, delivered = 0, failed = 0, pending = 0\<rparr> \<and>
   audienceSizeOf ''c1'' (snd (processDeliveryReceipt launchedDb
                         (receiptFor ''MSG-c1-1000-0-k3x9qa'' ''sent'') 2000))
     = Some 1"
  by (simp add: launch_of_draft)
     (simp add: launchedDb_def launchedLog_def draftCampaign_def receiptFor_def receipt_defs)

section \<open>AND rules with two conditions on one field\<close>

text \<open>
  Where evaluateAudience agrees with the rule taken condition by condition: always for OR,
  and for AND when there is at least one condition and no field occurs twice.
\<close>

lemma fst_buildConditionQuery: "fst (buildConditionQuery cond) = field cond"
  by (simp add: buildConditionQuery_def Let_def)

lemma update_new_key: "k \<notin> fst ` set q \<Longrightarrow> AList.update k v q = q @ [(k, v)]"
  by (induction q) auto

lemma assign_distinct_fields:
  "distinct (map fst q @ map field conds) \<Longrightarrow>
   foldl (\<lambda>query cond. case buildConditionQuery cond of (f, k) \<Rightarrow> AList.update f k query) q conds
     = q @ map buildConditionQuery conds"
proof (induction conds arbitrary: q)
  case Nil
  then show ?case by simp
next
  case (Cons cond conds)
  obtain f k where bc: "buildConditionQuery cond = (f, k)" by (cases "buildConditionQuery cond")
  with fst_buildConditionQuery [of cond] have f: "f = field cond" by simp
  from Cons.prems f have new: "f \<notin> fst ` set q" by auto
  from Cons.prems f have "distinct (map fst (q @ [(f, k)]) @ map field conds)" by auto
  from Cons.IH [OF this] show ?case
    by (simp add: bc update_new_key [OF new])
qed

lemma matchesQuery_conditions:
  "matchesQuery c (map buildConditionQuery conds) = list_all (matchesCondition c) conds"
  by (induction conds) (auto simp: matchesQuery_def matchesCondition_def)

lemma matchesCondition_fun:
  "matchesCondition c = (\<lambda>cond. matchesQuery c [buildConditionQuery cond])"
  by (rule ext) (simp add: matchesCondition_def)

lemma evaluateAudience_or:
  "logic rs = ''OR'' \<Longrightarrow> evaluateAudience rs cs = audienceByCondition rs cs"
  by (simp add: evaluateAudience_def audienceByCondition_def matchesCondition_fun)

lemma evaluateAudience_distinct_fields:
  "logic rs \<noteq> ''OR'' \<Longrightarrow> conditions rs \<noteq> [] \<Longrightarrow> distinct (map field (conditions rs)) \<Longrightarrow>
   evaluateAudience rs cs = audienceByCondition rs cs"
  using assign_distinct_fields [of "[]" "conditions rs"]
  by (simp add: evaluateAudience_def audienceByCondition_def assignAll_def matchesQuery_conditions)

text \<open>
  C3. For the AND rule "totalSpent greater than 10000 and totalSpent less than 20000" over
  customers who spent 5000, 15000 and 20000, evaluateAudience returns the customers with
  5000 and 15000: the second condition replaced the first one under the same key of the
  query. The customers satisfying both conditions are the one with 15000 only.
\<close>

theorem and_rule_keeps_last_condition_of_field:
  "evaluateAudience midRange threeSpenders = [spender ''u1'' 5000, spender ''u2'' 15000] \<and>
   audienceByCondition midRange threeSpenders = [spender ''u2'' 15000]"
  by (simp add: midRange_def threeSpenders_def spentOver10000_def spentUnder20000_def
      spender_def audience_defs)


section \<open>Log entries before vendor submissions\<close>

lemma insertOrdered_appends:
  "insertOrdered docs ls = (None, ls') \<Longrightarrow> ls' = ls @ docs"
proof (induction docs arbitrary: ls)
  case Nil
  then show ?case by simp
next
  case (Cons x xs)
  from Cons.prems have "insertOrdered xs (ls @ [x]) = (None, ls')"
    by (simp split: if_splits)
  from Cons.IH [OF this] show ?case by simp
qed

lemma insertMany_appends:
  "insertMany docs ls = (None, ls') \<Longrightarrow> ls' = ls @ docs"
  by (auto simp: insertMany_def insertOrdered_appends split: list.splits)

lemma findOne_member:
  "l \<in> set ls \<Longrightarrow> findOne (messageId l) ls \<noteq> None"
  by (auto simp: findOne_def find_None_iff)

lemma sendMessagesToVendor_submissions:
  assumes keeps: "\<And>d0 l0 mid. findOne mid (logs d0) \<noteq> None
                     \<Longrightarrow> findOne mid (logs (snd (v d0 l0))) \<noteq> None"
  shows "sendMessagesToVendor v ls c d = (c', d', submissions) \<Longrightarrow>
         \<forall>mid \<in> M. findOne mid (logs d) \<noteq> None \<Longrightarrow>
         map fst submissions = ls \<and>
         (submissions \<noteq> [] \<longrightarrow> snd (hd submissions) = d) \<and>
         (\<forall>(l, ds) \<in> set submissions. \<forall>mid \<in> M. findOne mid (logs ds) \<noteq> None)"
proof (induction ls arbitrary: c d c' d' submissions)
  case Nil
  then show ?case by simp
next
  case (Cons l ls)
  obtain ok d1 where v: "v d l = (ok, d1)" by (cases "v d l")
  obtain c1 cs1 where u: "updateStats c (if ok then ''sent'' else ''failed'') (campaigns d1) = (c1, cs1)"
    by (cases "updateStats c (if ok then ''sent'' else ''failed'') (campaigns d1)")
  obtain c2 d2 rest where r: "sendMessagesToVendor v ls c1 (d1\<lparr>campaigns := cs1\<rparr>) = (c2, d2, rest)"
    by (cases "sendMessagesToVendor v ls c1 (d1\<lparr>campaigns := cs1\<rparr>)")
  from Cons.prems(1) v u r have sub: "submissions = (l, d) # rest"
    by simp
  have d1: "\<forall>mid \<in> M. findOne mid (logs d1) \<noteq> None"
    using keeps [of _ d l] Cons.prems(2) v by (metis snd_conv)
  then have inv: "\<forall>mid \<in> M. findOne mid (logs (d1\<lparr>campaigns := cs1\<rparr>)) \<noteq> None"
    by simp
  from Cons.IH [OF r inv] have
    "map fst rest = ls" "\<forall>(l, ds) \<in> set rest. \<forall>mid \<in> M. findOne mid (logs ds) \<noteq> None"
    by auto
  with sub Cons.prems(2) show ?case by simp
qed

lemma length_buildLogs: "length (buildLogs c audience now rnd) = length audience"
  by (simp add: buildLogs_def)

lemma processDeliveryReceipt_keeps_logs:
  "findOne mid (logs d) \<noteq> None \<Longrightarrow> findOne mid (logs (snd (processDeliveryReceipt d r now))) \<noteq> None"
  by (auto simp: processDeliveryReceipt_def applyReceiptToLog_def markAsSent_def
      markAsDelivered_def markAsFailed_def Let_def findOne_saveLog
      split: option.splits sum.splits if_splits)

lemma eager_launch_succeeds:
  "fst (launchCampaign eagerVendor draftCampaign [johnDoe] 1000 suffixes6 draftDb) = None"
proof -
  have st: "start draftCampaign 1000 (campaigns draftDb)
              = (draftCampaign\<lparr>status := ''running'', startedAt := Some 1000\<rparr>,
                 [draftCampaign\<lparr>status := ''running'', startedAt := Some 1000\<rparr>])"
    by (simp add: start_def draftDb_def)
  have ins: "insertMany [launchedLog] [] = (None, [launchedLog])"
    by (simp add: insertMany_def validateLog_def List.map_filter_def launchedLog_def findOne_def
        rupee_def jsLength_def)
  have lg: "logs draftDb = []" by (simp add: draftDb_def)
  show ?thesis
    unfolding launchCampaign_def
    by (simp add: st draft_logs Let_def lg ins split: prod.splits)
qed

text \<open>
  C6. A launch inserts the log entries of the whole resolved audience with one insertMany
  and only then submits messages: when the insertion fails nothing is submitted, and
  otherwise there is one submission per audience member, the store at the first
  submission holds the old entries followed by the whole batch, and at every submission
  the store holds the log entry of every message of the batch, its own included. So a
  receipt that the vendor produces for a submitted message, however early, finds the
  entry. The vendor (and whatever is processed while the dispatcher waits for it) is
  assumed not to delete log entries; receipt processing never does.
\<close>

theorem logs_exist_before_submission:
  assumes keeps: "\<And>d0 l0 mid. findOne mid (logs d0) \<noteq> None
                     \<Longrightarrow> findOne mid (logs (snd (v d0 l0))) \<noteq> None"
      and launch: "launchCampaign v c audience now rnd d = (e, d', submissions)"
  shows "(e \<noteq> None \<longrightarrow> submissions = []) \<and>
         (e = None \<longrightarrow>
            map fst submissions =
              buildLogs (c\<lparr>status := ''running'', startedAt := Some now\<rparr>) audience now rnd \<and>
            length submissions = length audience) \<and>
         (submissions \<noteq> [] \<longrightarrow> logs (snd (hd submissions)) = logs d @ map fst submissions) \<and>
         (\<forall>(l, ds) \<in> set submissions.
            \<forall>l' \<in> set (map fst submissions). findOne (messageId l') (logs ds) \<noteq> None)"
proof -
  let ?c1 = "c\<lparr>status := ''running'', startedAt := Some now\<rparr>"
  let ?batch = "buildLogs ?c1 audience now rnd"
  obtain cs1 where st: "start c now (campaigns d) = (?c1, cs1)"
    by (simp add: start_def Let_def)
  let ?d1 = "d\<lparr>campaigns := cs1\<rparr>"
  show ?thesis
  proof (cases "?batch = []")
    case True
    with launch st have "submissions = []" "e = None"
      by (auto simp: launchCampaign_def Let_def)
    moreover from True have "audience = []"
      using length_buildLogs [of ?c1 audience now rnd] by simp
    ultimately show ?thesis using True by simp
  next
    case False
    obtain e1 ls where ins: "insertMany ?batch (logs ?d1) = (e1, ls)"
      by (cases "insertMany ?batch (logs ?d1)")
    show ?thesis
    proof (cases e1)
      case (Some err)
      with launch st ins False have "submissions = []" "e = Some err"
        by (auto simp: launchCampaign_def Let_def)
      then show ?thesis by simp
    next
      case None
      with ins have ls: "ls = logs d @ ?batch"
        by (auto dest: insertMany_appends)
      obtain c2 d2 subs where send:
        "sendMessagesToVendor v ?batch ?c1 (?d1\<lparr>logs := ls\<rparr>) = (c2, d2, subs)"
        by (cases "sendMessagesToVendor v ?batch ?c1 (?d1\<lparr>logs := ls\<rparr>)")
      with launch st ins None False have res: "e = None" "submissions = subs"
        by (auto simp: launchCampaign_def Let_def)
      have present: "\<forall>mid \<in> messageId ` set ?batch. findOne mid (logs (?d1\<lparr>logs := ls\<rparr>)) \<noteq> None"
      proof
        fix mid assume "mid \<in> messageId ` set ?batch"
        then obtain l where l: "l \<in> set ?batch" "mid = messageId l" by auto
        from l(1) ls have "l \<in> set ls" by simp
        from findOne_member [OF this] l(2)
        show "findOne mid (logs (?d1\<lparr>logs := ls\<rparr>)) \<noteq> None" by simp
      qed
      from sendMessagesToVendor_submissions [OF keeps send present]
      have "map fst subs = ?batch" "length subs = length audience"
        "subs \<noteq> [] \<longrightarrow> snd (hd subs) = ?d1\<lparr>logs := ls\<rparr>"
        "\<forall>(l, ds) \<in> set subs. \<forall>mid \<in> messageId ` set ?batch. findOne mid (logs ds) \<noteq> None"
        using length_buildLogs [of ?c1 audience now rnd] by (auto dest: arg_cong [where f = length])
      with res ls show ?thesis by auto
    qed
  qed
qed

theorem logs_exist_before_submission_witness:
  "fst (launchCampaign eagerVendor draftCampaign [johnDoe] 1000 suffixes6 draftDb) = None \<and>
   map fst (snd (snd (launchCampaign eagerVendor draftCampaign [johnDoe] 1000 suffixes6 draftDb)))
     = [launchedLog] \<and>
   findOne (messageId launchedLog)
     (logs (snd (hd (snd (snd (launchCampaign eagerVendor draftCampaign [johnDoe] 1000 suffixes6
                                draftDb)))))) \<noteq> None"
proof -
  let ?res = "launchCampaign eagerVendor draftCampaign [johnDoe] 1000 suffixes6 draftDb"
  have keeps: "\<And>d0 l0 mid. findOne mid (logs d0) \<noteq> None
                 \<Longrightarrow> findOne mid (logs (snd (eagerVendor d0 l0))) \<noteq> None"
    by (simp add: eagerVendor_def processDeliveryReceipt_keeps_logs)
  have launch: "?res = (fst ?res, fst (snd ?res), snd (snd ?res))" by simp
  note T = logs_exist_before_submission [OF keeps launch]
  from T [THEN conjunct2, THEN conjunct1] eager_launch_succeeds
  have sub: "map fst (snd (snd ?res)) = [launchedLog]"
    by (simp add: draft_logs)
  note ex = T [THEN conjunct2, THEN conjunct2, THEN conjunct2]
  from sub obtain ds where one: "snd (snd ?res) = [(launchedLog, ds)]"
    by (cases "snd (snd ?res)") auto
  with ex sub have "findOne (messageId launchedLog) (logs ds) \<noteq> None" by simp
  with one sub eager_launch_succeeds show ?thesis by simp
qed

section \<open>Replacing placeholders\<close>

text \<open>
  Facts about one global replacement: what it inserts, which text it leaves in place, and
  when no occurrence of a given text is left or created.
\<close>

lemma getSubstitution_literal:
  "CHR ''$'' \<notin> set rep \<Longrightarrow> getSubstitution m b a rep = rep"
  by (induction m b a rep rule: getSubstitution.induct) auto

lemma replaceFrom_Nil: "replaceFrom pat rep b [] = []"
  by (simp add: replaceFrom.simps)

lemma replaceFrom_match:
  "pat \<noteq> [] \<Longrightarrow>
   replaceFrom pat rep b (pat @ s) = getSubstitution pat b s rep @ replaceFrom pat rep (b @ pat) s"
  by (subst replaceFrom.simps) simp

lemma replaceFrom_step:
  "\<not> (pat \<noteq> [] \<and> prefix pat (c # s)) \<Longrightarrow>
   replaceFrom pat rep b (c # s) = c # replaceFrom pat rep (b @ [c]) s"
  by (subst replaceFrom.simps) auto

lemma replaceFrom_cases:
  obtains (empty) "s = []"
  | (match) s' where "pat \<noteq> []" "s = pat @ s'"
  | (step) c s' where "s = c # s'" "\<not> (pat \<noteq> [] \<and> prefix pat (c # s'))"
proof (cases s)
  case Nil
  then show ?thesis by (rule empty)
next
  case (Cons c s')
  show ?thesis
  proof (cases "pat \<noteq> [] \<and> prefix pat s")
    case True
    then obtain s'' where "s = pat @ s''" by (auto simp: prefix_def)
    with True show ?thesis by (auto intro: match)
  next
    case False
    with Cons show ?thesis by (auto intro: step)
  qed
qed

lemma replaceFrom_inserts:
  assumes "pat \<noteq> []" and "CHR ''$'' \<notin> set rep"
  shows "sublist pat s \<Longrightarrow> sublist rep (replaceFrom pat rep b s)"
proof (induction "length s" arbitrary: s b rule: less_induct)
  case less
  show ?case
  proof (cases rule: replaceFrom_cases [where s = s and pat = pat])
    case empty
    with less.prems assms show ?thesis by simp
  next
    case (match s')
    then show ?thesis
      using assms by (simp add: replaceFrom_match getSubstitution_literal)
  next
    case (step c s')
    with less.prems have "sublist pat s'"
      using assms by (auto simp: sublist_Cons_right)
    with less.hyps [of s' "b @ [c]"] step have "sublist rep (replaceFrom pat rep (b @ [c]) s')"
      by simp
    with step show ?thesis
      by (simp add: replaceFrom_step sublist_Cons_right)
  qed
qed

lemma replaceFrom_prefix_kept:
  "pat = [] \<or> hd pat \<notin> set w \<Longrightarrow> prefix w s \<Longrightarrow> prefix w (replaceFrom pat rep b s)"
proof (induction w arbitrary: s b)
  case Nil
  then show ?case by simp
next
  case (Cons x w)
  from Cons.prems(2) obtain s' where s: "s = x # s'" and p: "prefix w s'"
    by (cases s) auto
  from Cons.prems(1) have nomatch: "\<not> (pat \<noteq> [] \<and> prefix pat (x # s'))"
    by (cases pat) auto
  from Cons.prems(1) have "pat = [] \<or> hd pat \<notin> set w" by auto
  from Cons.IH [OF this p] show ?case
    by (simp add: s replaceFrom_step [OF nomatch])
qed

lemma replaceFrom_keeps_block:
  assumes hd_free: "pat = [] \<or> hd pat \<notin> set (tl blk)"
      and not_inside: "\<not> sublist blk pat"
      and no_overlap: "\<And>b1 b2. blk = b1 @ b2 \<Longrightarrow> b1 \<noteq> [] \<Longrightarrow> \<not> suffix b1 pat"
  shows "sublist blk s \<Longrightarrow> sublist blk (replaceFrom pat rep b s)"
proof (induction "length s" arbitrary: s b rule: less_induct)
  case less
  from not_inside have blk: "blk \<noteq> []" by auto
  show ?case
  proof (cases rule: replaceFrom_cases [where s = s and pat = pat])
    case empty
    with less.prems blk show ?thesis by simp
  next
    case (match s')
    from less.prems match have "sublist blk (pat @ s')" by simp
    then consider "sublist blk pat" | "sublist blk s'"
      | x1 x2 where "blk = x1 @ x2" "suffix x1 pat" "prefix x2 s'"
      by (auto simp: sublist_append)
    then have "sublist blk s'"
    proof cases
      case 1
      with not_inside show ?thesis by simp
    next
      case 2
      then show ?thesis .
    next
      case 3
      show ?thesis
      proof (cases "x1 = []")
        case True
        with 3 show ?thesis by auto
      next
        case False
        with no_overlap [OF 3(1)] 3(2) show ?thesis by simp
      qed
    qed
    with less.hyps [of s' "b @ pat"] match
    have "sublist blk (replaceFrom pat rep (b @ pat) s')" by simp
    then have "sublist blk (getSubstitution pat b s' rep @ replaceFrom pat rep (b @ pat) s')"
      by (simp add: sublist_append)
    with match show ?thesis by (simp add: replaceFrom_match)
  next
    case (step c s')
    from less.prems step consider "prefix blk (c # s')" | "sublist blk s'"
      by (auto simp: sublist_Cons_right)
    then have "sublist blk (c # replaceFrom pat rep (b @ [c]) s')"
    proof cases
      case 1
      with blk obtain blk' where b': "blk = c # blk'" "prefix blk' s'"
        by (cases blk) auto
      with hd_free have "pat = [] \<or> hd pat \<notin> set blk'" by simp
      from replaceFrom_prefix_kept [OF this b'(2)] b'(1)
      have "prefix blk (c # replaceFrom pat rep (b @ [c]) s')" by simp
      then show ?thesis by (rule prefix_imp_sublist)
    next
      case 2
      with less.hyps [of s' "b @ [c]"] step
      show ?thesis by (simp add: sublist_Cons_right)
    qed
    with step show ?thesis by (simp add: replaceFrom_step)
  qed
qed

lemma replaceFrom_no_new_aux:
  assumes lit: "CHR ''$'' \<notin> set rep" and rep: "rep \<noteq> []" and q: "q \<noteq> []"
      and hr: "hd rep \<notin> set q" and hq: "hd q \<notin> set rep"
  shows "q = pat \<or> \<not> sublist q s \<Longrightarrow>
         (\<And>u1 u2. u = u1 @ u2 \<Longrightarrow> u2 \<noteq> [] \<Longrightarrow> \<not> prefix q (u2 @ s)) \<Longrightarrow>
         \<not> sublist q (u @ replaceFrom pat rep b s)"
proof (induction "length s" arbitrary: s b u rule: less_induct)
  case less
  note src = less.prems(1) and inv = less.prems(2)
  show ?case
  proof (cases rule: replaceFrom_cases [where s = s and pat = pat])
    case empty
    have "\<not> sublist q u"
    proof
      assume "sublist q u"
      then obtain ps ss where u: "u = ps @ q @ ss" by (auto simp: sublist_def)
      from inv [of ps "q @ ss"] u q empty show False by simp
    qed
    with empty show ?thesis by (simp add: replaceFrom_Nil)
  next
    case (match s')
    have src': "q = pat \<or> \<not> sublist q s'"
      using src match by (auto simp: sublist_append)
    have inv': "\<not> prefix q (u2 @ s')" if split: "u @ rep = u1 @ u2" and ne: "u2 \<noteq> []" for u1 u2
    proof
      assume pq: "prefix q (u2 @ s')"
      from split consider us where "u = u1 @ us" "us @ rep = u2"
        | us where "u @ us = u1" "rep = us @ u2"
        by (auto simp: append_eq_append_conv2)
      then show False
      proof cases
        case 1
        show False
        proof (cases "us = []")
          case True
          with 1 pq have "prefix q (rep @ s')" by simp
          with q rep have "hd q = hd rep" by (cases q; cases rep) auto
          with hr q show False by (cases q) auto
        next
          case False
          have no_prefix: "\<not> prefix q us"
          proof
            assume "prefix q us"
            then have "prefix q (us @ s)" by (auto simp: prefix_def)
            with inv [OF \<open>u = u1 @ us\<close> False] show False by simp
          qed
          from pq 1 have "prefix q (us @ rep @ s')" by auto
          then have "prefix q us \<or> (\<exists>z. q = us @ z \<and> prefix z (rep @ s'))"
            by (simp only: prefix_append)
          with no_prefix obtain z where z: "q = us @ z" "prefix z (rep @ s')" by auto
          with no_prefix have "z \<noteq> []" by auto
          with z rep have "hd z = hd rep" by (cases z; cases rep) auto
          with z \<open>z \<noteq> []\<close> have "hd rep \<in> set q" by (cases z) auto
          with hr show False by simp
        qed
      next
        case 2
        from pq q ne have "hd q = hd u2" by (cases q; cases u2) auto
        with 2 ne have "hd q \<in> set rep" by (cases u2) auto
        with hq show False by simp
      qed
    qed
    from less.hyps [of s' "u @ rep" "b @ pat", OF _ src'] inv' match
    have "\<not> sublist q ((u @ rep) @ replaceFrom pat rep (b @ pat) s')" by auto
    with match lit show ?thesis
      by (simp add: replaceFrom_match getSubstitution_literal)
  next
    case (step c s')
    have src': "q = pat \<or> \<not> sublist q s'"
      using src step by (auto simp: sublist_Cons_right)
    have inv': "\<not> prefix q (u2 @ s')" if split: "u @ [c] = u1 @ u2" and ne: "u2 \<noteq> []" for u1 u2
    proof
      assume pq: "prefix q (u2 @ s')"
      from split ne obtain us where us: "u = u1 @ us" "u2 = us @ [c]"
        by (cases u2 rule: rev_cases) auto
      show False
      proof (cases "us = []")
        case True
        with us pq step have "prefix q s" by simp
        with src step q show False by (auto dest: prefix_imp_sublist)
      next
        case False
        from pq us step have "prefix q (us @ s)" by simp
        with inv [OF us(1) False] show False by simp
      qed
    qed
    from less.hyps [of s' "u @ [c]" "b @ [c]", OF _ src'] inv' step
    have "\<not> sublist q ((u @ [c]) @ replaceFrom pat rep (b @ [c]) s')" by auto
    with step show ?thesis by (simp add: replaceFrom_step)
  qed
qed

lemma replaceFrom_no_new:
  assumes "CHR ''$'' \<notin> set rep" and "rep \<noteq> []" and "q \<noteq> []"
      and "hd rep \<notin> set q" and "hd q \<notin> set rep"
      and "q = pat \<or> \<not> sublist q s"
  shows "\<not> sublist q (replaceFrom pat rep b s)"
  using replaceFrom_no_new_aux [OF assms(1-5), of pat s "[]" b] assms(6) by simp

lemma replaceFrom_keeps_foreign_block:
  assumes "blk \<noteq> []" and "hd blk \<notin> set pat" and "pat = [] \<or> hd pat \<notin> set blk"
      and "sublist blk s"
  shows "sublist blk (replaceFrom pat rep b s)"
proof (rule replaceFrom_keeps_block [OF _ _ _ assms(4)])
  from assms(1,3) show "pat = [] \<or> hd pat \<notin> set (tl blk)"
    by (cases blk) auto
  show "\<not> sublist blk pat"
  proof
    assume "sublist blk pat"
    then have "set blk \<subseteq> set pat" by (rule set_mono_sublist)
    with assms(1,2) show False by (cases blk) auto
  qed
  fix b1 b2 assume "blk = b1 @ b2" "b1 \<noteq> []"
  then have h: "hd b1 = hd blk" by (cases b1) auto
  show "\<not> suffix b1 pat"
  proof
    assume "suffix b1 pat"
    then have "set b1 \<subseteq> set pat" by (rule set_mono_suffix)
    with \<open>b1 \<noteq> []\<close> h assms(2) show False by (cases b1) auto
  qed
qed

lemma replaceFrom_keeps_other_token:
  assumes w: "CHR ''{'' \<notin> set w" "CHR ''}'' \<notin> set w"
      and k: "CHR ''{'' \<notin> set k" "CHR ''}'' \<notin> set k"
      and diff: "w \<noteq> k"
      and occ: "sublist (CHR ''{'' # w @ ''}'') s"
  shows "sublist (CHR ''{'' # w @ ''}'') (replaceFrom (CHR ''{'' # k @ ''}'') rep b s)"
proof (rule replaceFrom_keeps_block [OF _ _ _ occ])
  let ?blk = "CHR ''{'' # w @ ''}''" and ?pat = "CHR ''{'' # k @ ''}''"
  from w show "?pat = [] \<or> hd ?pat \<notin> set (tl ?blk)" by simp
  show "\<not> sublist ?blk ?pat"
  proof
    assume "sublist ?blk ?pat"
    then obtain ps ss where eq: "?pat = ps @ ?blk @ ss" by (auto simp: sublist_def)
    show False
    proof (cases ps)
      case Nil
      with eq have "k @ CHR ''}'' # [] = w @ CHR ''}'' # ss" by simp
      with w k have "k = w" by (simp add: append_Cons_eq_iff)
      with diff show False by simp
    next
      case (Cons p ps')
      with eq have "k @ ''}'' = ps' @ ?blk @ ss" by simp
      then have "CHR ''{'' \<in> set (k @ ''}'')" by simp
      with k show False by simp
    qed
  qed
  fix b1 b2 assume split: "?blk = b1 @ b2" and ne: "b1 \<noteq> []"
  show "\<not> suffix b1 ?pat"
  proof
    assume "suffix b1 ?pat"
    then obtain zs where eq: "?pat = zs @ b1" by (auto simp: suffix_def)
    from split ne obtain b1' where b1: "b1 = CHR ''{'' # b1'" "w @ ''}'' = b1' @ b2"
      by (cases b1) auto
    show False
    proof (cases zs)
      case Nil
      with eq b1 have "k @ CHR ''}'' # [] = b1'" by simp
      with b1(2) have "w @ CHR ''}'' # [] = k @ CHR ''}'' # b2" by simp
      with w k have "w = k" by (simp add: append_Cons_eq_iff)
      with diff show False by simp
    next
      case (Cons z zs')
      with eq b1 have "k @ ''}'' = zs' @ CHR ''{'' # b1'" by simp
      then have "CHR ''{'' \<in> set (k @ ''}'')" by simp
      with k show False by simp
    qed
  qed
qed

lemma showInt_8: "showInt 8 = ''8''"
  by (simp add: showInt_def showNat.simps)

lemma toLocaleStringIN_15000: "toLocaleStringIN 15000 = ''15,000''"
  by (simp add: toLocaleStringIN_def groupIndian_def groupPairs.simps showNat.simps)


text \<open>
  C5. For a customer named "John Doe" with totalSpent 15000 and visitCount 8, and every
  template that contains \<open>{name}\<close>, \<open>{totalSpent}\<close> and \<open>{visitCount}\<close>, the personalized
  message contains "John Doe", the grouped amount "15,000" and "8", and contains none of
  the three placeholders any more. And for every template and every customer, any other
  token, an opening brace, a text without braces other than name, totalSpent and
  visitCount, and a closing brace, that occurs in the template occurs in the output.
\<close>

theorem personalizeMessage_placeholders:
  "(name c = ''John Doe'' \<and> totalSpent c = 15000 \<and> visitCount c = 8 \<and>
    sublist ''{name}'' t \<and> sublist ''{totalSpent}'' t \<and> sublist ''{visitCount}'' t \<longrightarrow>
      sublist ''John Doe'' (personalizeMessage t c) \<and>
      sublist ''15,000'' (personalizeMessage t c) \<and>
      sublist ''8'' (personalizeMessage t c) \<and>
      \<not> sublist ''{name}'' (personalizeMessage t c) \<and>
      \<not> sublist ''{totalSpent}'' (personalizeMessage t c) \<and>
      \<not> sublist ''{visitCount}'' (personalizeMessage t c)) \<and>
   (CHR ''{'' \<notin> set w \<and> CHR ''}'' \<notin> set w \<and>
    w \<noteq> ''name'' \<and> w \<noteq> ''totalSpent'' \<and> w \<noteq> ''visitCount'' \<and>
    sublist (''{'' @ w @ ''}'') t \<longrightarrow>
      sublist (''{'' @ w @ ''}'') (personalizeMessage t c))"
proof (intro conjI impI)
  assume a: "name c = ''John Doe'' \<and> totalSpent c = 15000 \<and> visitCount c = 8 \<and>
    sublist ''{name}'' t \<and> sublist ''{totalSpent}'' t \<and> sublist ''{visitCount}'' t"
  let ?money = "rupee @ ''15,000''"
  let ?t1 = "replaceFrom ''{name}'' ''John Doe'' [] t"
  let ?t2 = "replaceFrom ''{totalSpent}'' ?money [] ?t1"
  let ?t3 = "replaceFrom ''{visitCount}'' ''8'' [] ?t2"
  from a have out: "personalizeMessage t c = ?t3"
    by (simp add: personalizeMessage_def replaceGlobal_def showInt_8 toLocaleStringIN_15000)
  \<comment> \<open>after the first replacement\<close>
  have n1: "sublist ''John Doe'' ?t1"
    by (rule replaceFrom_inserts) (use a in simp_all)
  have s1: "sublist ''{totalSpent}'' ?t1"
    using a replaceFrom_keeps_other_token [of "''totalSpent''" "''name''" t ] by simp
  have v1: "sublist ''{visitCount}'' ?t1"
    using a replaceFrom_keeps_other_token [of "''visitCount''" "''name''" t] by simp
  have x1: "\<not> sublist ''{name}'' ?t1"
    by (rule replaceFrom_no_new) simp_all
  \<comment> \<open>after the second replacement\<close>
  have n2: "sublist ''John Doe'' ?t2"
    by (rule replaceFrom_keeps_foreign_block [OF _ _ _ n1]) simp_all
  have m2: "sublist ?money ?t2"
    by (rule replaceFrom_inserts [OF _ _ s1]) (simp_all add: rupee_def)
  have v2: "sublist ''{visitCount}'' ?t2"
    using v1 replaceFrom_keeps_other_token [of "''visitCount''" "''totalSpent''" ?t1] by simp
  have x2: "\<not> sublist ''{name}'' ?t2"
    by (rule replaceFrom_no_new [OF _ _ _ _ _ disjI2 [OF x1]]) (simp_all add: rupee_def)
  have y2: "\<not> sublist ''{totalSpent}'' ?t2"
    by (rule replaceFrom_no_new) (simp_all add: rupee_def)
  \<comment> \<open>after the third replacement\<close>
  have n3: "sublist ''John Doe'' ?t3"
    by (rule replaceFrom_keeps_foreign_block [OF _ _ _ n2]) simp_all
  have m3: "sublist ?money ?t3"
    by (rule replaceFrom_keeps_foreign_block [OF _ _ _ m2]) (simp_all add: rupee_def)
  have "sublist ''15,000'' ?money" by (simp add: sublist_append)
  from this m3 have g3: "sublist ''15,000'' ?t3" by (rule sublist_order.order.trans)
  have e3: "sublist ''8'' ?t3"
    by (rule replaceFrom_inserts [OF _ _ v2]) simp_all
  have x3: "\<not> sublist ''{name}'' ?t3"
    by (rule replaceFrom_no_new [OF _ _ _ _ _ disjI2 [OF x2]]) simp_all
  have y3: "\<not> sublist ''{totalSpent}'' ?t3"
    by (rule replaceFrom_no_new [OF _ _ _ _ _ disjI2 [OF y2]]) simp_all
  have z3: "\<not> sublist ''{visitCount}'' ?t3"
    by (rule replaceFrom_no_new) simp_all
  from n3 g3 e3 x3 y3 z3 out
  show "sublist ''John Doe'' (personalizeMessage t c)"
    "sublist ''15,000'' (personalizeMessage t c)"
    "sublist ''8'' (personalizeMessage t c)"
    "\<not> sublist ''{name}'' (personalizeMessage t c)"
    "\<not> sublist ''{totalSpent}'' (personalizeMessage t c)"
    "\<not> sublist ''{visitCount}'' (personalizeMessage t c)"
    by simp_all
next
  assume b: "CHR ''{'' \<notin> set w \<and> CHR ''}'' \<notin> set w \<and>
    w \<noteq> ''name'' \<and> w \<noteq> ''totalSpent'' \<and> w \<noteq> ''visitCount'' \<and>
    sublist (''{'' @ w @ ''}'') t"
  let ?tok = "CHR ''{'' # w @ ''}''"
  from b have t0: "sublist ?tok t" by simp
  from b have t1: "sublist ?tok (replaceFrom (CHR ''{'' # ''name'' @ ''}'') (name c) [] t)"
    by (intro replaceFrom_keeps_other_token [OF _ _ _ _ _ t0]) simp_all
  from b have t2: "sublist ?tok (replaceFrom (CHR ''{'' # ''totalSpent'' @ ''}'')
                      (rupee @ toLocaleStringIN (totalSpent c)) []
                      (replaceFrom (CHR ''{'' # ''name'' @ ''}'') (name c) [] t))"
    by (intro replaceFrom_keeps_other_token [OF _ _ _ _ _ t1]) simp_all
  from b have t3: "sublist ?tok (replaceFrom (CHR ''{'' # ''visitCount'' @ ''}'')
                      (showInt (visitCount c)) []
                      (replaceFrom (CHR ''{'' # ''totalSpent'' @ ''}'')
                        (rupee @ toLocaleStringIN (totalSpent c)) []
                        (replaceFrom (CHR ''{'' # ''name'' @ ''}'') (name c) [] t)))"
    by (intro replaceFrom_keeps_other_token [OF _ _ _ _ _ t2]) simp_all
  then show "sublist (''{'' @ w @ ''}'') (personalizeMessage t c)"
    by (simp add: personalizeMessage_def replaceGlobal_def)
qed

theorem personalizeMessage_placeholders_witness:
  "sublist ''{name}'' (messageTemplate draftCampaign) \<and>
   sublist ''{totalSpent}'' (messageTemplate draftCampaign) \<and>
   sublist ''{visitCount}'' (messageTemplate draftCampaign) \<and>
   sublist ''{code}'' (messageTemplate draftCampaign) \<and>
   sublist ''John Doe'' (personalizeMessage (messageTemplate draftCampaign) johnDoe) \<and>
   sublist ''15,000'' (personalizeMessage (messageTemplate draftCampaign) johnDoe) \<and>
   sublist ''8'' (personalizeMessage (messageTemplate draftCampaign) johnDoe) \<and>
   \<not> sublist ''{name}'' (personalizeMessage (messageTemplate draftCampaign) johnDoe) \<and>
   \<not> sublist ''{totalSpent}'' (personalizeMessage (messageTemplate draftCampaign) johnDoe) \<and>
   \<not> sublist ''{visitCount}'' (personalizeMessage (messageTemplate draftCampaign) johnDoe) \<and>
   sublist ''{code}'' (personalizeMessage (messageTemplate draftCampaign) johnDoe)"
proof -
  let ?t = "messageTemplate draftCampaign"
  have c: "name johnDoe = ''John Doe'' \<and> totalSpent johnDoe = 15000 \<and> visitCount johnDoe = 8"
    by (simp add: johnDoe_def)
  have h: "sublist ''{name}'' ?t \<and> sublist ''{totalSpent}'' ?t \<and> sublist ''{visitCount}'' ?t \<and>
           sublist ''{code}'' ?t"
    by (simp add: draftCampaign_def sublist_Cons_right)
  have w: "CHR ''{'' \<notin> set ''code'' \<and> CHR ''}'' \<notin> set ''code'' \<and>
           ''code'' \<noteq> ''name'' \<and> ''code'' \<noteq> ''totalSpent'' \<and> ''code'' \<noteq> ''visitCount''"
    by simp
  from personalizeMessage_placeholders [of johnDoe ?t "''code''"] c h w
  show ?thesis by simp
qed

end
